theory Spec2Isabelle
  imports Complex_Main "HOL-Library.Log_Nat" "HOL-Library.Multiset"
begin

section \<open>JavaScript numbers and dates\<close>

text \<open>
  The page \<open>BookRoom\<close> computes with JavaScript numbers: IEEE 754 binary64 values,
  and \<open>NaN\<close> (from an invalid date, or from \<open>parseInt\<close> of an empty guest field). A
  number is modelled as the real it denotes. The result of \<open>+\<close> and \<open>*\<close> is the exact
  result rounded to the nearest binary64 value, ties to the even significand.

  \<open>fl64\<close> is that rounding for the normal range: \<open>exponent64 x\<close> is the \<open>e\<close> with
  \<open>2 ^ e \<le> \<bar>x\<bar> < 2 ^ (e + 1)\<close>, \<open>ulp64 x\<close> the spacing \<open>2 ^ (e - 52)\<close> of the binary64
  values there, and \<open>x\<close> is rounded to a multiple of it. Overflow to an infinity (beyond
  \<open>1.8 * 10 ^ 308\<close>) and the subnormal numbers (below \<open>2.3 * 10 ^ -308\<close>) are left out: the
  amounts of the page come from \<open>DECIMAL(10,2)\<close> columns and day counts, far from both.
\<close>

definition roundTiesToEven :: "real \<Rightarrow> int" where
  "roundTiesToEven y =
     (let f = \<lfloor>y\<rfloor> in
      if y - of_int f < 1 / 2 then f
      else if 1 / 2 < y - of_int f then f + 1
      else if even f then f else f + 1)"

definition exponent64 :: "real \<Rightarrow> int" where
  "exponent64 x =
     (if 1 \<le> \<bar>x\<bar> then bitlen \<lfloor>\<bar>x\<bar>\<rfloor> - 1 else - bitlen (\<lceil>1 / \<bar>x\<bar>\<rceil> - 1))"

definition ulp64 :: "real \<Rightarrow> real" where
  "ulp64 x = power_int 2 (exponent64 x - 52)"

definition fl64 :: "real \<Rightarrow> real" where
  "fl64 x = (if x = 0 then 0 else of_int (roundTiesToEven (x / ulp64 x)) * ulp64 x)"

text \<open>The unit roundoff: rounding changes a number by at most this fraction of it.\<close>

definition eps64 :: real where
  "eps64 = 1 / 2 ^ 53"

datatype jsnum = Num real | NaN

fun js_add :: "jsnum \<Rightarrow> jsnum \<Rightarrow> jsnum" where
  "js_add (Num a) (Num b) = Num (fl64 (a + b))"
| "js_add _ _ = NaN"

fun js_mul :: "jsnum \<Rightarrow> jsnum \<Rightarrow> jsnum" where
  "js_mul (Num a) (Num b) = Num (fl64 (a * b))"
| "js_mul _ _ = NaN"

text \<open>
  \<open>-\<close> and \<open>/\<close> occur once, on time values: the difference of the two dates, divided by
  the constant \<open>1000 * 60 * 60 * 24\<close>. Both are taken without rounding: for the dates a
  date input delivers (midnights UTC) the difference and the quotient are whole numbers
  below \<open>2 ^ 53\<close>, which binary64 holds exactly.
\<close>

fun js_sub :: "jsnum \<Rightarrow> jsnum \<Rightarrow> jsnum" where
  "js_sub (Num a) (Num b) = Num (a - b)"
| "js_sub _ _ = NaN"

fun js_div :: "jsnum \<Rightarrow> jsnum \<Rightarrow> jsnum" where
  "js_div (Num a) (Num b) = Num (a / b)"
| "js_div _ _ = NaN"

fun Math_ceil :: "jsnum \<Rightarrow> jsnum" where
  "Math_ceil (Num a) = Num (of_int \<lceil>a\<rceil>)"
| "Math_ceil NaN = NaN"

text \<open>
  The amounts of the tables are decimals (\<open>DECIMAL(10,2)\<close>). They reach the page as
  JSON, and a decimal literal is read as the binary64 value nearest to it: an amount
  \<open>d\<close> of a row is the JavaScript number \<open>number d\<close>. For a \<open>d\<close> that is a binary64 value
  already, \<open>number d\<close> is \<open>d\<close> itself.
\<close>

definition number :: "real \<Rightarrow> jsnum" where
  "number d = Num (fl64 d)"

text \<open>The relational operator \<open><=\<close>: false as soon as one operand is \<open>NaN\<close>.\<close>

fun js_le :: "jsnum \<Rightarrow> jsnum \<Rightarrow> bool" where
  "js_le (Num a) (Num b) = (a \<le> b)"
| "js_le _ _ = False"

text \<open>
  A \<open>Date\<close> object is its time value: milliseconds since the epoch, or none for an
  Invalid Date, whose \<open>getTime()\<close> is \<open>NaN\<close>.
\<close>

type_synonym Date = "int option"

fun getTime :: "Date \<Rightarrow> jsnum" where
  "getTime (Some t) = Num (of_int t)"
| "getTime None = NaN"

text \<open>
  \<open>new Date(string)\<close> is a function of the JavaScript engine, not of this repository;
  outside the ISO forms its result is implementation-defined. The operations below take
  it as the parameter \<open>newDate\<close>, and the general theorems hold for every such function.

  For concrete runs, \<open>isoDate\<close> is the parser of the date-only form \<open>YYYY-MM-DD\<close>
  (the only non-empty value an \<open><input type="date">\<close> delivers), read as midnight UTC as
  ECMAScript prescribes; every other string is an Invalid Date there.
\<close>

definition digit :: "char \<Rightarrow> int option" where
  "digit c = (let n = (of_char c :: nat) in
     if 48 \<le> n \<and> n \<le> 57 then Some (int n - 48) else None)"

fun digits :: "string \<Rightarrow> int option" where
  "digits [] = None"
| "digits cs = foldl (\<lambda>acc c. case (acc, digit c) of
       (Some a, Some d) \<Rightarrow> Some (10 * a + d) | _ \<Rightarrow> None) (Some 0) cs"

definition leap_year :: "int \<Rightarrow> bool" where
  "leap_year y = (y mod 4 = 0 \<and> (y mod 100 \<noteq> 0 \<or> y mod 400 = 0))"

definition days_in_month :: "int \<Rightarrow> int \<Rightarrow> int" where
  "days_in_month y m =
     (if m = 2 then (if leap_year y then 29 else 28)
      else if m = 4 \<or> m = 6 \<or> m = 9 \<or> m = 11 then 30 else 31)"

text \<open>Days between 1970-01-01 and the civil date \<open>y-m-d\<close> (proleptic Gregorian).\<close>

definition days_from_civil :: "int \<Rightarrow> int \<Rightarrow> int \<Rightarrow> int" where
  "days_from_civil y m d =
     (let y' = (if m \<le> 2 then y - 1 else y);
          era = y' div 400;
          yoe = y' - era * 400;
          doy = (153 * (if m > 2 then m - 3 else m + 9) + 2) div 5 + d - 1;
          doe = yoe * 365 + yoe div 4 - yoe div 100 + doy
      in era * 146097 + doe - 719468)"

definition msPerDay :: int where
  "msPerDay = 1000 * 60 * 60 * 24"

definition isoDate :: "string \<Rightarrow> Date" where
  "isoDate s =
     (if length s = 10 \<and> s ! 4 = CHR ''-'' \<and> s ! 7 = CHR ''-'' then
        (case (digits (take 4 s), digits (take 2 (drop 5 s)), digits (drop 8 s)) of
           (Some y, Some m, Some d) \<Rightarrow>
             if 1 \<le> m \<and> m \<le> 12 \<and> 1 \<le> d \<and> d \<le> days_in_month y m
             then Some (days_from_civil y m d * msPerDay) else None
         | _ \<Rightarrow> None)
      else None)"

section \<open>Data of the booking page\<close>

text \<open>
  Rows as the page reads them. Field names follow the source; \<open>id\<close>, \<open>name\<close>,
  \<open>type\<close> and \<open>description\<close> carry a suffix because two interfaces share them.
  \<open>price_per_night\<close> and \<open>price\<close> hold the amount of the row; the calculator works with
  the JavaScript number read from it (\<open>number\<close>).
  \<open>active\<close> is the column of \<open>additional_services\<close> that \<open>select('*')\<close> returns
  next to the declared fields.
\<close>

record Room =
  id_Room :: string
  name_Room :: string
  type_Room :: string
  price_per_night :: real
  description_Room :: string
  capacity :: real

record AdditionalService =
  id_Service :: string
  name_Service :: string
  description_Service :: string
  price :: real
  icon :: string
  active :: bool

record FormData =
  checkIn :: string
  checkOut :: string
  guests :: jsnum
  specialRequests :: string

text \<open>
  The state of the component: \<open>useState\<close> cells. Of the session user only \<open>id\<close> is
  read, so \<open>user\<close> holds that identifier, or nothing for \<open>null\<close>.
\<close>

record BookRoom =
  room :: "Room option"
  services :: "AdditionalService list"
  selectedServices :: "string list"
  user :: "string option"
  formData :: FormData

section \<open>The pricing calculator\<close>

text \<open>
  The local constant \<open>nights\<close> of \<open>calculateTotal\<close>:
  \<open>Math.ceil((checkOut.getTime() - checkIn.getTime()) / (1000 * 60 * 60 * 24))\<close>.
\<close>

definition nights :: "(string \<Rightarrow> Date) \<Rightarrow> FormData \<Rightarrow> jsnum" where
  "nights newDate fd =
     Math_ceil (js_div (js_sub (getTime (newDate (checkOut fd))) (getTime (newDate (checkIn fd))))
                       (Num (of_int msPerDay)))"

text \<open>One round of the \<open>forEach\<close> over the selected identifiers.\<close>

definition addService :: "AdditionalService list \<Rightarrow> jsnum \<Rightarrow> string \<Rightarrow> jsnum" where
  "addService svcs tot serviceId =
     (case find (\<lambda>s. id_Service s = serviceId) svcs of
        Some service \<Rightarrow> js_add tot (number (price service))
      | None \<Rightarrow> tot)"

definition calculateTotal :: "(string \<Rightarrow> Date) \<Rightarrow> BookRoom \<Rightarrow> jsnum" where
  "calculateTotal newDate st =
     (case room st of
        None \<Rightarrow> Num 0
      | Some r \<Rightarrow>
          if checkIn (formData st) = [] \<or> checkOut (formData st) = [] then Num 0
          else foldl (addService (services st))
                 (js_mul (nights newDate (formData st)) (number (price_per_night r)))
                 (selectedServices st))"


section \<open>The remote table store\<close>

datatype booking_status = pendiente | confirmada | cancelada | completada

text \<open>The object handed to \<open>from('bookings').insert\<close>, and the row the store returns for it.\<close>

record BookingInsert =
  user_id :: string
  room_id :: string
  check_in :: string
  check_out :: string
  guests_Booking :: real
  total_amount :: jsnum
  special_requests :: string
  status :: booking_status

record Booking = BookingInsert +
  id_Booking :: string

record ServiceRecord =
  booking_id :: string
  service_id :: string
  quantity :: int

record db =
  additional_services :: "AdditionalService list"
  bookings :: "Booking list"
  booking_services :: "ServiceRecord list"

record PostgrestError =
  message_Error :: string

text \<open>
  What the store answers is not decided by this repository (row-level security,
  constraints, the network). It is a parameter: for an insert into \<open>bookings\<close> either an
  error or the identifier the store gives the new row; for the bulk insert into
  \<open>booking_services\<close> and for the select on \<open>additional_services\<close> an error or none.
  A request answered with an error leaves the tables as they were; the bulk insert is one
  statement, so it stores all its rows or none.
\<close>

record supabase =
  bookings_insert :: "db \<Rightarrow> BookingInsert \<Rightarrow> PostgrestError + string"
  booking_services_insert :: "db \<Rightarrow> ServiceRecord list \<Rightarrow> PostgrestError option"
  additional_services_select :: "db \<Rightarrow> PostgrestError option"

definition insert_booking ::
    "supabase \<Rightarrow> db \<Rightarrow> BookingInsert \<Rightarrow> (PostgrestError + Booking) \<times> db" where
  "insert_booking sb d b =
     (case bookings_insert sb d b of
        Inl e \<Rightarrow> (Inl e, d)
      | Inr i \<Rightarrow>
          (let row = BookingInsert.extend b (Booking.fields i)
           in (Inr row, d\<lparr>bookings := bookings d @ [row]\<rparr>)))"

definition insert_services ::
    "supabase \<Rightarrow> db \<Rightarrow> ServiceRecord list \<Rightarrow> PostgrestError option \<times> db" where
  "insert_services sb d recs =
     (case booking_services_insert sb d recs of
        Some e \<Rightarrow> (Some e, d)
      | None \<Rightarrow> (None, d\<lparr>booking_services := booking_services d @ recs\<rparr>))"

text \<open>
  \<open>fetchServices\<close>: the rows with \<open>active = true\<close> become the \<open>services\<close> of the page;
  on an error the page keeps what it had.
\<close>

definition fetchServices :: "supabase \<Rightarrow> db \<Rightarrow> BookRoom \<Rightarrow> BookRoom" where
  "fetchServices sb d st =
     (case additional_services_select sb d of
        Some e \<Rightarrow> st
      | None \<Rightarrow> st\<lparr>services := filter active (additional_services d)\<rparr>)"

section \<open>Validation\<close>

text \<open>
  \<open>bookingSchema.parse\<close>. The schema library (zod) checks the keys of the object in the
  order they are declared and collects one issue per failing key; \<open>parse\<close> throws a
  \<open>ZodError\<close> holding them when there is any. \<open>z.number()\<close> refuses \<open>NaN\<close> with its
  own message. The accented letters of the messages are written as their code units.
\<close>

datatype ZodIssue = ZodIssue (path: string) (message: string)

definition msg_checkIn :: string where
  "msg_checkIn = ''Selecciona fecha de entrada''"

definition msg_checkOut :: string where
  "msg_checkOut = ''Selecciona fecha de salida''"

definition msg_guests :: string where
  "msg_guests = ''Debe haber al menos 1 hu'' @ [CHR 0xE9] @ ''sped''"

definition msg_nan :: string where
  "msg_nan = ''Expected number, received nan''"

definition bookingSchema_parse ::
    "string \<Rightarrow> string \<Rightarrow> jsnum \<Rightarrow> ZodIssue list + (string \<times> string \<times> real)" where
  "bookingSchema_parse ci co g =
     (let issues =
            (if length ci < 1 then [ZodIssue ''checkIn'' msg_checkIn] else [])
          @ (if length co < 1 then [ZodIssue ''checkOut'' msg_checkOut] else [])
          @ (case g of
               NaN \<Rightarrow> [ZodIssue ''guests'' msg_nan]
             | Num n \<Rightarrow> if n < 1 then [ZodIssue ''guests'' msg_guests] else [])
      in case (issues, g) of
           ([], Num n) \<Rightarrow> Inr (ci, co, n)
         | _ \<Rightarrow> Inl issues)"

section \<open>The booking submission flow\<close>

text \<open>What \<open>handleSubmit\<close> does to the outside, in the order it does it.\<close>

datatype event =
    toast_error string
  | toast_success string
  | navigate string
  | insert_bookings BookingInsert
  | insert_booking_services "ServiceRecord list"

definition msg_session :: string where
  "msg_session = ''Error en la sesi'' @ [CHR 0xF3] @ ''n''"

definition msg_dates :: string where
  "msg_dates = ''La fecha de salida debe ser posterior a la fecha de entrada''"

definition msg_created :: string where
  "msg_created = ''Reserva creada exitosamente''"

text \<open>The \<open>catch\<close> branch for an error that is no \<open>ZodError\<close>.\<close>

definition catch_message :: "PostgrestError \<Rightarrow> string" where
  "catch_message e =
     (if message_Error e = [] then ''Error al crear la reserva'' else message_Error e)"

definition serviceRecords :: "Booking \<Rightarrow> string list \<Rightarrow> ServiceRecord list" where
  "serviceRecords booking sel =
     map (\<lambda>serviceId. \<lparr>booking_id = id_Booking booking, service_id = serviceId, quantity = 1\<rparr>) sel"

definition handleSubmit ::
    "(string \<Rightarrow> Date) \<Rightarrow> supabase \<Rightarrow> BookRoom \<Rightarrow> db \<Rightarrow> event list \<times> db" where
  "handleSubmit newDate sb st d =
     (case (user st, room st) of
        (Some u, Some r) \<Rightarrow>
          (case bookingSchema_parse (checkIn (formData st)) (checkOut (formData st))
                                    (guests (formData st)) of
             Inl issues \<Rightarrow>
               (case issues of
                  i # _ \<Rightarrow> ([toast_error (message i)], d)
                | [] \<Rightarrow> ([], d))
           | Inr (vCheckIn, vCheckOut, vGuests) \<Rightarrow>
               if js_le (getTime (newDate vCheckOut)) (getTime (newDate vCheckIn))
               then ([toast_error msg_dates], d)
               else
                 (let tot = calculateTotal newDate st;
                      payload = \<lparr>user_id = u, room_id = id_Room r,
                                 check_in = vCheckIn, check_out = vCheckOut,
                                 guests_Booking = vGuests, total_amount = tot,
                                 special_requests = specialRequests (formData st),
                                 status = pendiente\<rparr>
                  in case insert_booking sb d payload of
                       (Inl bookingError, d1) \<Rightarrow>
                         ([insert_bookings payload, toast_error (catch_message bookingError)], d1)
                     | (Inr booking, d1) \<Rightarrow>
                         if length (selectedServices st) > 0 then
                           (let recs = serviceRecords booking (selectedServices st)
                            in case insert_services sb d1 recs of
                                 (Some servicesError, d2) \<Rightarrow>
                                   ([insert_bookings payload, insert_booking_services recs,
                                     toast_error (catch_message servicesError)], d2)
                               | (None, d2) \<Rightarrow>
                                   ([insert_bookings payload, insert_booking_services recs,
                                     toast_success msg_created,
                                     navigate (''/payment/'' @ id_Booking booking)], d2))
                         else
                           ([insert_bookings payload, toast_success msg_created,
                             navigate (''/payment/'' @ id_Booking booking)], d1)))
      | _ \<Rightarrow> ([toast_error msg_session], d))"

section \<open>Notions used to state the properties\<close>

text \<open>
  The price the calculator adds for a selected identifier: that of the first service of
  the list with this identifier (\<open>services.find\<close>), nothing when there is none.
\<close>

definition priceOf :: "AdditionalService list \<Rightarrow> string \<Rightarrow> real" where
  "priceOf svcs serviceId =
     (case find (\<lambda>s. id_Service s = serviceId) svcs of
        Some service \<Rightarrow> price service
      | None \<Rightarrow> 0)"

text \<open>
  The running total as a number: one selected identifier adds the price of its service,
  rounded, or nothing; \<open>totalFrom\<close> goes through a selection from left to right.
\<close>

definition addPrice :: "AdditionalService list \<Rightarrow> real \<Rightarrow> string \<Rightarrow> real" where
  "addPrice svcs t serviceId =
     (case find (\<lambda>s. id_Service s = serviceId) svcs of
        Some service \<Rightarrow> fl64 (t + fl64 (price service))
      | None \<Rightarrow> t)"

definition totalFrom :: "AdditionalService list \<Rightarrow> real \<Rightarrow> string list \<Rightarrow> real" where
  "totalFrom svcs t sel = foldl (addPrice svcs) t sel"

text \<open>Whole nights between two time values: the ceiling of their difference in days.\<close>

definition nightsBetween :: "int \<Rightarrow> int \<Rightarrow> int" where
  "nightsBetween a b = \<lceil>real_of_int (b - a) / real_of_int msPerDay\<rceil>"

text \<open>
  The object \<open>handleSubmit\<close> hands to the insert into \<open>bookings\<close> for the session
  user \<open>u\<close>, the room \<open>r\<close> and a validated guest count \<open>n\<close>.
\<close>

definition submittedBooking ::
    "(string \<Rightarrow> Date) \<Rightarrow> BookRoom \<Rightarrow> string \<Rightarrow> Room \<Rightarrow> real \<Rightarrow> BookingInsert" where
  "submittedBooking newDate st u r n =
     \<lparr>user_id = u, room_id = id_Room r,
      check_in = checkIn (formData st), check_out = checkOut (formData st),
      guests_Booking = n, total_amount = calculateTotal newDate st,
      special_requests = specialRequests (formData st), status = pendiente\<rparr>"

text \<open>The row the store keeps for an inserted object, under the identifier it chose.\<close>

definition storedBooking :: "string \<Rightarrow> BookingInsert \<Rightarrow> Booking" where
  "storedBooking i b = BookingInsert.extend b (Booking.fields i)"

text \<open>
  The sum of the prices, as the table \<open>additional_services\<close> has them, of the services
  linked to a booking.
\<close>

definition linkedPrices :: "db \<Rightarrow> string \<Rightarrow> real" where
  "linkedPrices d bookingId =
     sum_list (map (\<lambda>l. priceOf (additional_services d) (service_id l))
                   (filter (\<lambda>l. booking_id l = bookingId) (booking_services d)))"

section \<open>Sample data\<close>

text \<open>
  A room at 100 a night, one active service at 50, and a draft for the two nights from
  2025-01-01 to 2025-01-03 with that service selected.
\<close>

definition room100 :: Room where
  "room100 = \<lparr>id_Room = ''r1'', name_Room = ''Suite Ejecutiva'', type_Room = ''suite'',
               price_per_night = 100, description_Room = [], capacity = 3\<rparr>"

definition late50 :: AdditionalService where
  "late50 = \<lparr>id_Service = ''s1'', name_Service = ''Late Check-out'',
              description_Service = [], price = 50, icon = ''Clock'', active = True\<rparr>"

definition draft_ok :: BookRoom where
  "draft_ok = \<lparr>room = Some room100, services = [late50], selectedServices = [''s1''],
                user = Some ''u1'',
                formData = \<lparr>checkIn = ''2025-01-01'', checkOut = ''2025-01-03'',
                             guests = Num 2, specialRequests = []\<rparr>\<rparr>"

text \<open>The same draft with the two dates exchanged, and with an unreadable check-in.\<close>

definition draft_reversed :: BookRoom where
  "draft_reversed = draft_ok\<lparr>formData :=
     \<lparr>checkIn = ''2025-01-03'', checkOut = ''2025-01-01'', guests = Num 2, specialRequests = []\<rparr>\<rparr>"

definition draft_unreadable :: BookRoom where
  "draft_unreadable = draft_ok\<lparr>formData :=
     \<lparr>checkIn = ''abc'', checkOut = ''2025-01-03'', guests = Num 2, specialRequests = []\<rparr>\<rparr>"


text \<open>The reversed draft with no guest.\<close>

definition draft_reversed_no_guest :: BookRoom where
  "draft_reversed_no_guest = draft_ok\<lparr>formData :=
     \<lparr>checkIn = ''2025-01-03'', checkOut = ''2025-01-01'', guests = Num 0, specialRequests = []\<rparr>\<rparr>"

text \<open>
  Amounts with cents: one night at 0.10 with a service at 0.20, and three nights at
  0.70 with nothing selected.
\<close>

definition room010 :: Room where
  "room010 = room100\<lparr>price_per_night := 1 / 10\<rparr>"

definition service020 :: AdditionalService where
  "service020 = late50\<lparr>price := 1 / 5\<rparr>"

definition draft_cents :: BookRoom where
  "draft_cents = \<lparr>room = Some room010, services = [service020], selectedServices = [''s1''],
                   user = Some ''u1'',
                   formData = \<lparr>checkIn = ''2025-01-01'', checkOut = ''2025-01-02'',
                                guests = Num 2, specialRequests = []\<rparr>\<rparr>"

definition room070 :: Room where
  "room070 = room100\<lparr>price_per_night := 7 / 10\<rparr>"

definition draft_three_nights :: BookRoom where
  "draft_three_nights = \<lparr>room = Some room070, services = [late50], selectedServices = [],
                   user = Some ''u1'',
                   formData = \<lparr>checkIn = ''2025-01-01'', checkOut = ''2025-01-04'',
                                guests = Num 2, specialRequests = []\<rparr>\<rparr>"

text \<open>The form as the page opens it: no dates yet.\<close>

definition draft_blank :: BookRoom where
  "draft_blank = draft_ok\<lparr>formData :=
     \<lparr>checkIn = [], checkOut = [], guests = Num 1, specialRequests = []\<rparr>\<rparr>"

text \<open>
  A store that accepts every request and names the new booking \<open>b1\<close>, one that refuses
  the booking, one that takes the booking and refuses the services; and empty tables.
\<close>

definition store_ok :: supabase where
  "store_ok = \<lparr>bookings_insert = (\<lambda>d b. Inr ''b1''),
                booking_services_insert = (\<lambda>d recs. None),
                additional_services_select = (\<lambda>d. None)\<rparr>"

definition store_no_booking :: supabase where
  "store_no_booking = store_ok\<lparr>bookings_insert :=
     (\<lambda>d b. Inl \<lparr>message_Error = ''new row violates row-level security policy''\<rparr>)\<rparr>"

definition store_no_services :: supabase where
  "store_no_services = store_ok\<lparr>booking_services_insert :=
     (\<lambda>d recs. Some \<lparr>message_Error = ''violates foreign key constraint''\<rparr>)\<rparr>"

definition db_empty :: db where
  "db_empty = \<lparr>additional_services = [], bookings = [], booking_services = []\<rparr>"


text \<open>
  Two services that were selected while active and have been withdrawn since: the table
  still has them, a new \<open>fetchServices\<close> no longer returns them, the selection keeps
  their identifiers.
\<close>

definition spa150 :: AdditionalService where
  "spa150 = \<lparr>id_Service = ''s3'', name_Service = ''Spa y Masajes'',
              description_Service = [], price = 150, icon = ''Sparkles'', active = False\<rparr>"

definition cena200 :: AdditionalService where
  "cena200 = \<lparr>id_Service = ''s5'', name_Service = ''Cena Romantica'',
               description_Service = [], price = 200, icon = ''Heart'', active = False\<rparr>"

definition db_withdrawn :: db where
  "db_withdrawn = \<lparr>additional_services = [spa150, cena200], bookings = [],
                    booking_services = []\<rparr>"

definition draft_stale :: BookRoom where
  "draft_stale = fetchServices store_ok db_withdrawn
                   (draft_ok\<lparr>selectedServices := [''s3'', ''s5'']\<rparr>)"

section \<open>Auxiliary facts about rounding\<close>

text \<open>
  Rounding to the nearest integer, the bracket \<open>2 ^ e \<le> \<bar>x\<bar> < 2 ^ (e + 1)\<close> of the
  exponent, and from them: \<open>fl64\<close> keeps the sign, is monotone, leaves its own results
  unchanged and moves a number by at most \<open>eps64\<close> of its size.
\<close>

lemma rte_cases:
  "roundTiesToEven y = \<lfloor>y\<rfloor> \<and> y - of_int \<lfloor>y\<rfloor> \<le> 1 / 2
   \<or> roundTiesToEven y = \<lfloor>y\<rfloor> + 1 \<and> 1 / 2 \<le> y - of_int \<lfloor>y\<rfloor>"
  by (auto simp: roundTiesToEven_def Let_def)

lemma rte_of_int: "roundTiesToEven (of_int k) = k"
  by (simp add: roundTiesToEven_def)

lemma rte_error: "\<bar>of_int (roundTiesToEven y) - y\<bar> \<le> 1 / 2"
  using rte_cases [of y] by (auto simp: abs_le_iff)

lemma rte_mono:
  assumes "x \<le> y"
  shows "roundTiesToEven x \<le> roundTiesToEven y"
proof (cases "\<lfloor>x\<rfloor> = \<lfloor>y\<rfloor>")
  case True
  with assms show ?thesis
    by (auto simp: roundTiesToEven_def Let_def)
next
  case False
  with assms have "\<lfloor>x\<rfloor> + 1 \<le> \<lfloor>y\<rfloor>"
    using floor_mono [OF assms] by linarith
  moreover have "roundTiesToEven x \<le> \<lfloor>x\<rfloor> + 1" "\<lfloor>y\<rfloor> \<le> roundTiesToEven y"
    using rte_cases [of x] rte_cases [of y] by auto
  ultimately show ?thesis by linarith
qed

lemma rte_neg: "roundTiesToEven (- y) = - roundTiesToEven y"
proof (cases "y = of_int \<lfloor>y\<rfloor>")
  case True
  then obtain k where "y = of_int k" by blast
  then show ?thesis
    using rte_of_int [of k] rte_of_int [of "- k"] by simp
next
  case False
  have "\<lceil>y\<rceil> = \<lfloor>y\<rfloor> + 1"
    using False by (simp only: ceiling_altdef if_False)
  then have f: "\<lfloor>- y\<rfloor> = - \<lfloor>y\<rfloor> - 1"
    by (simp only: floor_minus)
  have "of_int \<lfloor>y\<rfloor> \<le> y" by (rule of_int_floor_le)
  with False have "of_int \<lfloor>y\<rfloor> < y" by (metis order_less_le)
  then show ?thesis
    unfolding roundTiesToEven_def Let_def f by (auto simp: field_simps)
qed

lemma ulp64_pos: "0 < ulp64 x"
  by (simp add: ulp64_def)


lemma exponent64_bounds:
  assumes "x \<noteq> 0"
  shows "power_int 2 (exponent64 x) \<le> \<bar>x\<bar>" and "\<bar>x\<bar> < power_int 2 (exponent64 x + 1)"
proof -
  have "power_int 2 (exponent64 x) \<le> \<bar>x\<bar> \<and> \<bar>x\<bar> < power_int 2 (exponent64 x + 1)"
  proof (cases "1 \<le> \<bar>x\<bar>")
    case True
    define m where "m = \<lfloor>\<bar>x\<bar>\<rfloor>"
    have m: "1 \<le> m" using True by (simp add: m_def le_floor_iff)
    have e: "exponent64 x = bitlen m - 1" using True by (simp add: exponent64_def m_def)
    from m have b: "2 ^ nat (bitlen m - 1) \<le> m" "m < 2 ^ nat (bitlen m)"
      using bitlen_bounds [of m] by auto
    have b1: "1 \<le> bitlen m" using m bitlen_eq_zero_iff [of m] bitlen_nonneg [of m] by linarith
    have lo: "(2::real) ^ nat (bitlen m - 1) \<le> \<bar>x\<bar>"
    proof -
      have "(2::real) ^ nat (bitlen m - 1) = of_int (2 ^ nat (bitlen m - 1))" by simp
      also have "\<dots> \<le> of_int m" using b(1) by (simp only: of_int_le_iff)
      also have "\<dots> \<le> \<bar>x\<bar>" by (simp add: m_def)
      finally show ?thesis .
    qed
    have hi: "\<bar>x\<bar> < (2::real) ^ nat (bitlen m)"
    proof -
      have "\<bar>x\<bar> < of_int (m + 1)" by (simp add: m_def)
      also have "\<dots> \<le> of_int (2 ^ nat (bitlen m))"
        using b(2) by (intro of_int_le_iff [THEN iffD2]) linarith
      also have "\<dots> = (2::real) ^ nat (bitlen m)" by simp
      finally show ?thesis .
    qed
    from lo hi b1 show ?thesis
      by (simp add: e power_int_def)
  next
    case False
    define c where "c = \<lceil>1 / \<bar>x\<bar>\<rceil>"
    define b where "b = bitlen (c - 1)"
    have xpos: "0 < \<bar>x\<bar>" using assms by simp
    have y: "1 < 1 / \<bar>x\<bar>" using False xpos by simp
    have c: "2 \<le> c" using y by (simp add: c_def le_ceiling_iff)
    have e: "exponent64 x = - b" using False by (simp add: exponent64_def c_def b_def)
    from c have bb: "2 ^ nat (b - 1) \<le> c - 1" "c - 1 < 2 ^ nat b"
      using bitlen_bounds [of "c - 1"] by (auto simp: b_def)
    have b1: "1 \<le> b"
      using c bitlen_eq_zero_iff [of "c - 1"] bitlen_nonneg [of "c - 1"] by (simp add: b_def)
    have up: "1 / \<bar>x\<bar> \<le> (2::real) ^ nat b"
    proof -
      have "1 / \<bar>x\<bar> \<le> of_int c" by (simp add: c_def)
      also have "\<dots> \<le> of_int (2 ^ nat b)"
        using bb(2) by (intro of_int_le_iff [THEN iffD2]) linarith
      also have "\<dots> = (2::real) ^ nat b" by simp
      finally show ?thesis .
    qed
    have lo: "(2::real) ^ nat (b - 1) < 1 / \<bar>x\<bar>"
    proof -
      have "(2::real) ^ nat (b - 1) = of_int (2 ^ nat (b - 1))" by simp
      also have "\<dots> \<le> of_int (c - 1)" using bb(1) by (simp only: of_int_le_iff)
      also have "\<dots> < 1 / \<bar>x\<bar>" unfolding c_def by linarith
      finally show ?thesis .
    qed
    have p: "0 < (2::real) ^ nat b" "0 < (2::real) ^ nat (b - 1)" by simp_all
    have r1: "inverse ((2::real) ^ nat b) \<le> \<bar>x\<bar>"
      using up xpos p by (simp add: field_simps)
    have r2: "\<bar>x\<bar> < inverse ((2::real) ^ nat (b - 1))"
      using lo xpos p by (simp add: field_simps)
    have "power_int (2::real) (- b) = inverse (2 ^ nat b)"
      using b1 by (simp add: power_int_def power_one_over inverse_eq_divide)
    moreover have "power_int (2::real) (- (b - 1)) = inverse (2 ^ nat (b - 1))"
      using b1 by (cases "b = 1") (simp_all add: power_int_def power_one_over inverse_eq_divide)
    moreover have "- b + 1 = - (b - 1)" by simp
    ultimately show ?thesis using r1 r2 by (simp only: e) 
  qed
  then show "power_int 2 (exponent64 x) \<le> \<bar>x\<bar>" and "\<bar>x\<bar> < power_int 2 (exponent64 x + 1)"
    by simp_all
qed


lemma exponent64_unique:
  assumes lo: "power_int 2 k \<le> \<bar>x\<bar>" and hi: "\<bar>x\<bar> < power_int 2 (k + 1)"
  shows "exponent64 x = k"
proof -
  have "0 < power_int (2::real) k" by simp
  with lo have "0 < \<bar>x\<bar>" by linarith
  then have nz: "x \<noteq> 0" by simp
  note b = exponent64_bounds [OF nz]
  have "\<not> exponent64 x < k"
  proof
    assume "exponent64 x < k"
    then have "power_int (2::real) (exponent64 x + 1) \<le> power_int 2 k"
      by (intro power_int_increasing) simp_all
    with lo b(2) show False by linarith
  qed
  moreover have "\<not> k < exponent64 x"
  proof
    assume "k < exponent64 x"
    then have "power_int (2::real) (k + 1) \<le> power_int 2 (exponent64 x)"
      by (intro power_int_increasing) simp_all
    with hi b(1) show False by linarith
  qed
  ultimately show ?thesis by linarith
qed

lemma exponent64_minus: "exponent64 (- x) = exponent64 x"
  by (simp add: exponent64_def)

lemma ulp64_minus: "ulp64 (- x) = ulp64 x"
  by (simp add: ulp64_def exponent64_minus)

lemma fl64_minus: "fl64 (- x) = - fl64 x"
  using rte_neg [of "x / ulp64 x"] by (simp add: fl64_def ulp64_minus)

lemma pow_split: "power_int (2::real) (e + 1) = 2 ^ 53 * power_int 2 (e - 52)"
  and pow_split0: "power_int (2::real) e = 2 ^ 52 * power_int 2 (e - 52)"
proof -
  have "power_int (2::real) (53 + (e - 52)) = power_int 2 53 * power_int 2 (e - 52)"
    by (rule power_int_add) simp
  then show "power_int (2::real) (e + 1) = 2 ^ 53 * power_int 2 (e - 52)"
    by (simp add: algebra_simps)
  have "power_int (2::real) (52 + (e - 52)) = power_int 2 52 * power_int 2 (e - 52)"
    by (rule power_int_add) simp
  then show "power_int (2::real) e = 2 ^ 52 * power_int 2 (e - 52)"
    by simp
qed

lemma scaled_bounds:
  assumes "x \<noteq> 0"
  shows "2 ^ 52 \<le> \<bar>x\<bar> / ulp64 x" and "\<bar>x\<bar> / ulp64 x < 2 ^ 53"
  using exponent64_bounds [OF assms] ulp64_pos [of x]
  unfolding pow_split [of "exponent64 x"] pow_split0 [of "exponent64 x"] ulp64_def [symmetric]
  by (simp_all add: field_simps)

lemma fl64_error: "\<bar>fl64 x - x\<bar> \<le> \<bar>x\<bar> / 2 ^ 53"
proof (cases "x = 0")
  case True
  then show ?thesis by (simp add: fl64_def)
next
  case False
  let ?u = "ulp64 x"
  have u: "0 < ?u" by (rule ulp64_pos)
  have "fl64 x - x = (of_int (roundTiesToEven (x / ?u)) - x / ?u) * ?u"
    using False u by (simp add: fl64_def field_simps)
  then have "\<bar>fl64 x - x\<bar> = \<bar>of_int (roundTiesToEven (x / ?u)) - x / ?u\<bar> * ?u"
    using u by (simp add: abs_mult)
  also have "\<dots> \<le> 1 / 2 * ?u"
    using rte_error [of "x / ?u"] u by (intro mult_right_mono) simp_all
  also have "?u \<le> \<bar>x\<bar> / 2 ^ 52"
    using scaled_bounds(1) [OF False] u by (simp add: field_simps)
  finally show ?thesis by simp
qed

lemma fl64_nonneg: "0 \<le> x \<Longrightarrow> 0 \<le> fl64 x"
proof -
  assume x: "0 \<le> x"
  have "0 \<le> x / ulp64 x" using x ulp64_pos [of x] by simp
  then have "roundTiesToEven 0 \<le> roundTiesToEven (x / ulp64 x)" by (rule rte_mono)
  then have "0 \<le> roundTiesToEven (x / ulp64 x)" using rte_of_int [of 0] by simp
  then show ?thesis using ulp64_pos [of x] by (simp add: fl64_def)
qed

lemma fl64_pos_range:
  assumes "0 < x"
  shows "power_int 2 (exponent64 x) \<le> fl64 x" and "fl64 x \<le> power_int 2 (exponent64 x + 1)"
proof -
  let ?u = "ulp64 x"
  have nz: "x \<noteq> 0" using assms by simp
  have u: "0 < ?u" by (rule ulp64_pos)
  have s: "2 ^ 52 \<le> x / ?u" "x / ?u \<le> 2 ^ 53"
    using scaled_bounds [OF nz] assms by simp_all
  have "roundTiesToEven (of_int (2 ^ 52)) \<le> roundTiesToEven (x / ?u)"
    using s(1) by (intro rte_mono) simp
  then have lo: "2 ^ 52 \<le> roundTiesToEven (x / ?u)" by (simp only: rte_of_int)
  have "roundTiesToEven (x / ?u) \<le> roundTiesToEven (of_int (2 ^ 53))"
    using s(2) by (intro rte_mono) simp
  then have hi: "roundTiesToEven (x / ?u) \<le> 2 ^ 53" by (simp only: rte_of_int)
  have "(2::real) ^ 52 \<le> of_int (roundTiesToEven (x / ?u))"
    using lo by (metis of_int_le_iff of_int_numeral of_int_power)
  then have "2 ^ 52 * ?u \<le> of_int (roundTiesToEven (x / ?u)) * ?u"
    using u by (intro mult_right_mono) simp_all
  then show "power_int 2 (exponent64 x) \<le> fl64 x"
    using nz by (simp add: fl64_def pow_split0 [of "exponent64 x"] ulp64_def)
  have "of_int (roundTiesToEven (x / ?u)) \<le> (2::real) ^ 53"
    using hi by (metis of_int_le_iff of_int_numeral of_int_power)
  then have "of_int (roundTiesToEven (x / ?u)) * ?u \<le> 2 ^ 53 * ?u"
    using u by (intro mult_right_mono) simp_all
  then show "fl64 x \<le> power_int 2 (exponent64 x + 1)"
    using nz by (simp add: fl64_def pow_split [of "exponent64 x"] ulp64_def)
qed

lemma fl64_mono_pos:
  assumes "0 < x" and "x \<le> y"
  shows "fl64 x \<le> fl64 y"
proof -
  have y: "0 < y" using assms by simp
  have nz: "x \<noteq> 0" "y \<noteq> 0" using assms by simp_all
  have "\<not> exponent64 y < exponent64 x"
  proof
    assume "exponent64 y < exponent64 x"
    then have "power_int (2::real) (exponent64 y + 1) \<le> power_int 2 (exponent64 x)"
      by (intro power_int_increasing) simp_all
    with exponent64_bounds(1) [OF nz(1)] exponent64_bounds(2) [OF nz(2)] assms y
    show False by simp
  qed
  then consider "exponent64 x = exponent64 y" | "exponent64 x < exponent64 y" by linarith
  then show ?thesis
  proof cases
    case 1
    then have u: "ulp64 x = ulp64 y" by (simp add: ulp64_def)
    have "x / ulp64 y \<le> y / ulp64 y"
      using assms ulp64_pos [of y] by (simp add: divide_right_mono)
    then have "roundTiesToEven (x / ulp64 y) \<le> roundTiesToEven (y / ulp64 y)" by (rule rte_mono)
    then have "of_int (roundTiesToEven (x / ulp64 y)) * ulp64 y
                 \<le> (of_int (roundTiesToEven (y / ulp64 y)) :: real) * ulp64 y"
      using ulp64_pos [of y] by (intro mult_right_mono) simp_all
    then show ?thesis using nz by (simp add: fl64_def u)
  next
    case 2
    then have "power_int (2::real) (exponent64 x + 1) \<le> power_int 2 (exponent64 y)"
      by (intro power_int_increasing) simp_all
    with fl64_pos_range(2) [OF assms(1)] fl64_pos_range(1) [OF y] show ?thesis by linarith
  qed
qed

lemma fl64_mono: "x \<le> y \<Longrightarrow> fl64 x \<le> fl64 y"
proof -
  assume le: "x \<le> y"
  consider "0 < x" | "x \<le> 0" "0 \<le> y" | "y < 0" by linarith
  then show ?thesis
  proof cases
    case 1
    then show ?thesis using le by (rule fl64_mono_pos)
  next
    case 2
    have "0 \<le> fl64 (- x)" using 2 by (intro fl64_nonneg) simp
    moreover have "0 \<le> fl64 y" using 2 by (intro fl64_nonneg)
    ultimately show ?thesis by (simp add: fl64_minus)
  next
    case 3
    then have "fl64 (- y) \<le> fl64 (- x)" using le by (intro fl64_mono_pos) simp_all
    then show ?thesis by (simp add: fl64_minus)
  qed
qed


lemma fl64_idem_pos:
  assumes "0 < x"
  shows "fl64 (fl64 x) = fl64 x"
proof -
  let ?e = "exponent64 x"
  let ?u = "ulp64 x"
  let ?m = "roundTiesToEven (x / ?u)"
  have nz: "x \<noteq> 0" using assms by simp
  have u: "0 < ?u" by (rule ulp64_pos)
  have fx: "fl64 x = of_int ?m * ?u" using nz by (simp add: fl64_def)
  have r: "power_int 2 ?e \<le> fl64 x" "fl64 x \<le> power_int 2 (?e + 1)"
    using fl64_pos_range [OF assms] by simp_all
  have pos: "0 < fl64 x"
  proof -
    have "0 < power_int (2::real) ?e" by simp
    with r(1) show ?thesis by linarith
  qed
  show ?thesis
  proof (cases "fl64 x < power_int 2 (?e + 1)")
    case True
    have "exponent64 (fl64 x) = ?e"
      using r(1) True pos by (intro exponent64_unique) simp_all
    then have uu: "ulp64 (fl64 x) = ?u" by (simp add: ulp64_def)
    have "fl64 x / ?u = of_int ?m" using u by (simp add: fx)
    then have "roundTiesToEven (fl64 x / ulp64 (fl64 x)) = ?m"
      by (simp only: uu rte_of_int)
    then have "fl64 (fl64 x) = of_int ?m * ?u"
      using pos by (simp add: fl64_def [of "fl64 x"] uu)
    then show ?thesis by (simp only: fx)
  next
    case False
    with r(2) have top: "fl64 x = power_int 2 (?e + 1)" by linarith
    have "power_int (2::real) (?e + 1) < power_int 2 (?e + 1 + 1)"
      by (intro power_int_strict_increasing) simp_all
    then have ex: "exponent64 (fl64 x) = ?e + 1"
      by (intro exponent64_unique) (simp_all add: top)
    have uu: "ulp64 (fl64 x) = power_int 2 (?e + 1 - 52)"
      by (simp add: ulp64_def ex)
    have sp: "fl64 x = 2 ^ 52 * power_int 2 (?e + 1 - 52)"
      using pow_split0 [of "?e + 1"] by (simp only: top)
    have "fl64 x / power_int 2 (?e + 1 - 52) = of_int (2 ^ 52)"
      by (simp add: sp)
    then have "fl64 x / ulp64 (fl64 x) = of_int (2 ^ 52)"
      by (simp only: uu)
    then have "roundTiesToEven (fl64 x / ulp64 (fl64 x)) = 2 ^ 52"
      by (simp only: rte_of_int)
    then have "fl64 (fl64 x) = 2 ^ 52 * power_int 2 (?e + 1 - 52)"
      using pos by (simp add: fl64_def [of "fl64 x"] uu)
    then show ?thesis by (simp only: sp)
  qed
qed

lemma fl64_zero: "fl64 0 = 0"
  by (simp add: fl64_def)

lemma fl64_idem: "fl64 (fl64 x) = fl64 x"
proof -
  consider "0 < x" | "x = 0" | "x < 0" by linarith
  then show ?thesis
  proof cases
    case 1
    then show ?thesis by (rule fl64_idem_pos)
  next
    case 2
    then show ?thesis by (simp add: fl64_zero)
  next
    case 3
    then have "fl64 (fl64 (- x)) = fl64 (- x)" by (intro fl64_idem_pos) simp
    then show ?thesis by (simp add: fl64_minus)
  qed
qed

lemma fl64_add_ge:
  assumes "fl64 a = a" and "0 \<le> p"
  shows "a \<le> fl64 (a + p)"
proof -
  have "fl64 a \<le> fl64 (a + p)" using assms(2) by (intro fl64_mono) simp
  then show ?thesis by (simp only: assms(1))
qed

lemma eps64_pos: "0 < eps64"
  by (simp add: eps64_def)

lemma fl64_rel_error: "\<bar>fl64 x - x\<bar> \<le> eps64 * \<bar>x\<bar>"
  using fl64_error [of x] by (simp add: eps64_def)

section \<open>Auxiliary facts about the calculator\<close>

text \<open>
  The \<open>forEach\<close> adds, rounded, the price of every selected identifier it finds; once the
  running total is \<open>NaN\<close> it stays so.
\<close>

lemma addService_Num: "addService svcs (Num t) i = Num (addPrice svcs t i)"
  by (simp add: addService_def addPrice_def number_def split: option.split)

lemma addService_NaN: "addService svcs NaN i = NaN"
  by (simp add: addService_def split: option.split)

lemma foldl_addService_Num:
  "foldl (addService svcs) (Num t) sel = Num (totalFrom svcs t sel)"
  unfolding totalFrom_def by (induction sel arbitrary: t) (simp_all add: addService_Num)

lemma foldl_addService_NaN: "foldl (addService svcs) NaN sel = NaN"
  by (induction sel) (simp_all add: addService_NaN)

lemma totalFrom_Nil: "totalFrom svcs t [] = t"
  by (simp add: totalFrom_def)

lemma totalFrom_Cons: "totalFrom svcs t (i # sel) = totalFrom svcs (addPrice svcs t i) sel"
  by (simp add: totalFrom_def)

lemma addPrice_cases:
  "(find (\<lambda>s. id_Service s = i) svcs = None \<and> addPrice svcs t i = t \<and> priceOf svcs i = 0)
   \<or> (\<exists>s\<in>set svcs. id_Service s = i \<and> priceOf svcs i = price s
         \<and> addPrice svcs t i = fl64 (t + fl64 (price s)))"
proof (cases "find (\<lambda>s. id_Service s = i) svcs")
  case None
  then show ?thesis by (simp add: addPrice_def priceOf_def)
next
  case (Some s)
  then have "s \<in> set svcs" and "id_Service s = i"
    by (auto simp: find_Some_iff)
  with Some show ?thesis by (auto simp: addPrice_def priceOf_def)
qed

lemma addPrice_eq:
  "addPrice svcs t i = t \<or> addPrice svcs t i = fl64 (t + fl64 (priceOf svcs i))"
  using addPrice_cases [of i svcs t] by auto

lemma priceOf_nonneg:
  assumes "\<forall>s\<in>set svcs. id_Service s = i \<longrightarrow> 0 \<le> price s"
  shows "0 \<le> priceOf svcs i"
  using addPrice_cases [of i svcs 0] assms by auto

lemma addPrice_nonneg:
  assumes "0 \<le> t" and "0 \<le> priceOf svcs i"
  shows "0 \<le> addPrice svcs t i"
  using addPrice_eq [of svcs t i] assms fl64_nonneg [of "priceOf svcs i"]
  by (auto intro!: fl64_nonneg)

lemma addPrice_ge:
  assumes "fl64 t = t" and "0 \<le> priceOf svcs i"
  shows "t \<le> addPrice svcs t i" and "fl64 (addPrice svcs t i) = addPrice svcs t i"
  using addPrice_eq [of svcs t i] assms fl64_add_ge [of t "fl64 (priceOf svcs i)"]
    fl64_nonneg [of "priceOf svcs i"]
  by (auto simp: fl64_idem)

lemma totalFrom_nonneg:
  assumes "0 \<le> t"
    and "\<forall>s\<in>set svcs. id_Service s \<in> set sel \<longrightarrow> 0 \<le> price s"
  shows "0 \<le> totalFrom svcs t sel"
  using assms
proof (induction sel arbitrary: t)
  case Nil
  then show ?case by (simp add: totalFrom_Nil)
next
  case (Cons i sel)
  have "0 \<le> priceOf svcs i" using Cons.prems(2) by (intro priceOf_nonneg) simp
  then have "0 \<le> addPrice svcs t i" using Cons.prems(1) by (intro addPrice_nonneg)
  moreover have "\<forall>s\<in>set svcs. id_Service s \<in> set sel \<longrightarrow> 0 \<le> price s"
    using Cons.prems(2) by simp
  ultimately show ?case by (simp add: totalFrom_Cons Cons.IH)
qed

lemma totalFrom_ge:
  assumes "fl64 t = t"
    and "\<forall>s\<in>set svcs. id_Service s \<in> set sel \<longrightarrow> 0 \<le> price s"
  shows "t \<le> totalFrom svcs t sel"
  using assms
proof (induction sel arbitrary: t)
  case Nil
  then show ?case by (simp add: totalFrom_Nil)
next
  case (Cons i sel)
  have p: "0 \<le> priceOf svcs i" using Cons.prems(2) by (intro priceOf_nonneg) simp
  have rest: "\<forall>s\<in>set svcs. id_Service s \<in> set sel \<longrightarrow> 0 \<le> price s"
    using Cons.prems(2) by simp
  have "t \<le> addPrice svcs t i" using Cons.prems(1) p by (rule addPrice_ge(1))
  also have "addPrice svcs t i \<le> totalFrom svcs (addPrice svcs t i) sel"
    using addPrice_ge(2) [OF Cons.prems(1) p] rest by (rule Cons.IH)
  finally show ?case by (simp add: totalFrom_Cons)
qed

text \<open>
  The distance between the running total and the exact sum grows by at most the factor
  \<open>1 + eps64\<close> with every addition.
\<close>

lemma addPrice_error:
  assumes d: "\<bar>t - S\<bar> \<le> ((1 + eps64) ^ j - 1) * A" and S: "\<bar>S\<bar> \<le> A"
  shows "\<bar>addPrice svcs t i - (S + priceOf svcs i)\<bar>
           \<le> ((1 + eps64) ^ (j + 2) - 1) * (A + \<bar>priceOf svcs i\<bar>)"
proof -
  let ?c = "(1 + eps64) ^ j - 1"
  let ?k = "(1 + eps64) ^ 2 * ?c + (2 * eps64 + eps64 ^ 2)"
  let ?p = "priceOf svcs i"
  let ?q = "fl64 ?p"
  let ?A = "A + \<bar>?p\<bar>"
  note e = eps64_pos
  have c: "0 \<le> ?c" using e by (simp add: one_le_power)
  have A: "0 \<le> A" using S by linarith
  have A': "0 \<le> ?A" using A by simp
  have c': "(1 + eps64) ^ (j + 2) - 1 = ?k"
    by (simp add: power_add power2_eq_square algebra_simps)
  have cA: "?c * A \<le> ?c * ?A"
    using c by (intro mult_left_mono) simp_all
  have d': "\<bar>t - S\<bar> \<le> ?c * ?A" using d cA by linarith
  have cA': "0 \<le> ?c * ?A" using c A' by simp
  have eA': "0 \<le> eps64 * ?A" using e A' by simp
  have grow: "\<bar>t - S\<bar> \<le> ?k * ?A"
  proof -
    have "?c * ?A \<le> ?k * ?A"
    proof (rule mult_right_mono)
      have "0 \<le> (2 * eps64 + eps64 ^ 2) * ?c + (2 * eps64 + eps64 ^ 2)" using e c by simp
      then show "?c \<le> ?k" by (simp add: power2_eq_square algebra_simps)
      show "0 \<le> ?A" by (rule A')
    qed
    with d' show ?thesis by linarith
  qed
  have q: "\<bar>?q - ?p\<bar> \<le> eps64 * ?A"
  proof -
    have "\<bar>?q - ?p\<bar> \<le> eps64 * \<bar>?p\<bar>" by (rule fl64_rel_error)
    also have "\<dots> \<le> eps64 * ?A" using e A by (intro mult_left_mono) simp_all
    finally show ?thesis .
  qed
  have round: "\<bar>fl64 (t + ?q) - (S + ?p)\<bar> \<le> ?k * ?A"
  proof -
    have sum: "\<bar>t + ?q\<bar> \<le> ?A + ?c * ?A + eps64 * ?A"
      using S d' q by linarith
    have "\<bar>fl64 (t + ?q) - (t + ?q)\<bar> \<le> eps64 * \<bar>t + ?q\<bar>" by (rule fl64_rel_error)
    also have "\<dots> \<le> eps64 * (?A + ?c * ?A + eps64 * ?A)"
      using sum e by (intro mult_left_mono) simp_all
    finally have r: "\<bar>fl64 (t + ?q) - (t + ?q)\<bar> \<le> eps64 * (?A + ?c * ?A + eps64 * ?A)" .
    have "\<bar>fl64 (t + ?q) - (S + ?p)\<bar>
            \<le> \<bar>fl64 (t + ?q) - (t + ?q)\<bar> + \<bar>t - S\<bar> + \<bar>?q - ?p\<bar>"
      by linarith
    also have "\<dots> \<le> eps64 * (?A + ?c * ?A + eps64 * ?A) + ?c * ?A + eps64 * ?A"
      using r d' q by linarith
    also have "\<dots> = ((1 + eps64) * ?c + (2 * eps64 + eps64 ^ 2)) * ?A"
      by (simp add: power2_eq_square algebra_simps)
    also have "\<dots> \<le> ?k * ?A"
    proof (rule mult_right_mono)
      have "0 \<le> (eps64 + eps64 ^ 2) * ?c" using e c by simp
      then show "(1 + eps64) * ?c + (2 * eps64 + eps64 ^ 2) \<le> ?k"
        by (simp add: power2_eq_square algebra_simps)
      show "0 \<le> ?A" by (rule A')
    qed
    finally show ?thesis .
  qed
  from addPrice_cases [of i svcs t] show ?thesis
  proof
    assume "find (\<lambda>s. id_Service s = i) svcs = None \<and> addPrice svcs t i = t \<and> ?p = 0"
    then have "addPrice svcs t i - (S + ?p) = t - S" by simp
    with grow show ?thesis by (simp only: c')
  next
    assume "\<exists>s\<in>set svcs. id_Service s = i \<and> ?p = price s
         \<and> addPrice svcs t i = fl64 (t + fl64 (price s))"
    then have "addPrice svcs t i = fl64 (t + ?q)" by auto
    with round show ?thesis by (simp only: c')
  qed
qed

lemma totalFrom_error:
  assumes "\<bar>t - S\<bar> \<le> ((1 + eps64) ^ j - 1) * A" and "\<bar>S\<bar> \<le> A"
  shows "\<bar>totalFrom svcs t sel - (S + sum_list (map (priceOf svcs) sel))\<bar>
           \<le> ((1 + eps64) ^ (j + 2 * length sel) - 1)
              * (A + sum_list (map (\<lambda>i. \<bar>priceOf svcs i\<bar>) sel))"
  using assms
proof (induction sel arbitrary: t S A j)
  case Nil
  then show ?case by (simp add: totalFrom_Nil)
next
  case (Cons i sel)
  have 1: "\<bar>addPrice svcs t i - (S + priceOf svcs i)\<bar>
           \<le> ((1 + eps64) ^ (j + 2) - 1) * (A + \<bar>priceOf svcs i\<bar>)"
    using Cons.prems by (rule addPrice_error)
  have 2: "\<bar>S + priceOf svcs i\<bar> \<le> A + \<bar>priceOf svcs i\<bar>"
    using Cons.prems(2) by linarith
  have 3: "j + 2 + 2 * length sel = j + 2 * length (i # sel)" by simp
  from Cons.IH [OF 1 2] show ?case
    unfolding 3 by (simp only: totalFrom_Cons list.map sum_list.Cons add.assoc)
qed

text \<open>The rounded product of the nights and the rate, against the exact one.\<close>

lemma product_error:
  "\<bar>fl64 (n * fl64 r) - n * r\<bar> \<le> ((1 + eps64) ^ 2 - 1) * \<bar>n * r\<bar>"
proof -
  note e = eps64_pos
  have r: "\<bar>fl64 r - r\<bar> \<le> eps64 * \<bar>r\<bar>" by (rule fl64_rel_error)
  have "\<bar>n * fl64 r - n * r\<bar> = \<bar>n\<bar> * \<bar>fl64 r - r\<bar>"
    by (simp add: abs_mult right_diff_distrib [symmetric])
  also have "\<dots> \<le> \<bar>n\<bar> * (eps64 * \<bar>r\<bar>)"
    using r by (intro mult_left_mono) simp_all
  finally have nr: "\<bar>n * fl64 r - n * r\<bar> \<le> eps64 * \<bar>n * r\<bar>"
    by (simp add: abs_mult algebra_simps)
  then have size: "\<bar>n * fl64 r\<bar> \<le> \<bar>n * r\<bar> + eps64 * \<bar>n * r\<bar>" by linarith
  have "\<bar>fl64 (n * fl64 r) - n * fl64 r\<bar> \<le> eps64 * \<bar>n * fl64 r\<bar>" by (rule fl64_rel_error)
  also have "\<dots> \<le> eps64 * (\<bar>n * r\<bar> + eps64 * \<bar>n * r\<bar>)"
    using size e by (intro mult_left_mono) simp_all
  finally have "\<bar>fl64 (n * fl64 r) - n * r\<bar>
      \<le> eps64 * (\<bar>n * r\<bar> + eps64 * \<bar>n * r\<bar>) + eps64 * \<bar>n * r\<bar>"
    using nr by linarith
  also have "\<dots> = ((1 + eps64) ^ 2 - 1) * \<bar>n * r\<bar>"
    by (simp add: power2_eq_square algebra_simps)
  finally show ?thesis .
qed

lemma product_lower:
  assumes "0 \<le> n" and "0 \<le> r"
  shows "(1 - eps64) ^ 2 * (n * r) \<le> fl64 (n * fl64 r)"
proof -
  note e = eps64_pos
  have e1: "0 \<le> 1 - eps64" by (simp add: eps64_def)
  have fr: "0 \<le> fl64 r" using assms(2) by (rule fl64_nonneg)
  have "\<bar>fl64 r - r\<bar> \<le> eps64 * r" using fl64_rel_error [of r] assms(2) by simp
  then have "(1 - eps64) * r \<le> fl64 r" by (simp add: algebra_simps)
  then have "n * ((1 - eps64) * r) \<le> n * fl64 r"
    using assms(1) by (rule mult_left_mono)
  then have 1: "(1 - eps64) * (n * ((1 - eps64) * r)) \<le> (1 - eps64) * (n * fl64 r)"
    using e1 by (rule mult_left_mono)
  have nf: "0 \<le> n * fl64 r" using assms(1) fr by simp
  have "\<bar>fl64 (n * fl64 r) - n * fl64 r\<bar> \<le> eps64 * (n * fl64 r)"
    using fl64_rel_error [of "n * fl64 r"] nf by simp
  then have "(1 - eps64) * (n * fl64 r) \<le> fl64 (n * fl64 r)"
    by (simp add: algebra_simps)
  with 1 have "(1 - eps64) * (n * ((1 - eps64) * r)) \<le> fl64 (n * fl64 r)" by linarith
  then show ?thesis by (simp add: power2_eq_square algebra_simps)
qed

lemma nights_valid:
  assumes "newDate (checkIn fd) = Some a" and "newDate (checkOut fd) = Some b"
  shows "nights newDate fd = Num (of_int (nightsBetween a b))"
  using assms by (simp add: nights_def nightsBetween_def)

lemma nights_invalid:
  assumes "newDate (checkIn fd) = None \<or> newDate (checkOut fd) = None"
  shows "nights newDate fd = NaN"
proof (cases "newDate (checkOut fd)")
  case None
  then show ?thesis by (simp add: nights_def)
next
  case (Some b)
  with assms have "newDate (checkIn fd) = None" by simp
  with Some show ?thesis by (simp add: nights_def)
qed

lemma calculateTotal_valid:
  assumes "room st = Some r"
    and "checkIn (formData st) \<noteq> []" and "checkOut (formData st) \<noteq> []"
    and "newDate (checkIn (formData st)) = Some a"
    and "newDate (checkOut (formData st)) = Some b"
  shows "calculateTotal newDate st =
           Num (totalFrom (services st)
                  (fl64 (of_int (nightsBetween a b) * fl64 (price_per_night r)))
                  (selectedServices st))"
  using assms by (simp add: calculateTotal_def nights_valid foldl_addService_Num number_def)

lemma calculateTotal_absent:
  assumes "room st = None \<or> checkIn (formData st) = [] \<or> checkOut (formData st) = []"
  shows "calculateTotal newDate st = Num 0"
  using assms by (auto simp: calculateTotal_def split: option.split)

lemma calculateTotal_invalid:
  assumes "room st = Some r"
    and "checkIn (formData st) \<noteq> []" and "checkOut (formData st) \<noteq> []"
    and "newDate (checkIn (formData st)) = None \<or> newDate (checkOut (formData st)) = None"
  shows "calculateTotal newDate st = NaN"
  using assms by (simp add: calculateTotal_def nights_invalid foldl_addService_NaN number_def)

lemma nightsBetween_nonneg: "a \<le> b \<Longrightarrow> 0 \<le> nightsBetween a b"
  by (simp add: nightsBetween_def msPerDay_def)

lemma priceOf_known:
  assumes "i \<in> id_Service ` set svcs"
  shows "\<exists>s\<in>set svcs. id_Service s = i \<and> priceOf svcs i = price s"
proof -
  from assms have "find (\<lambda>s. id_Service s = i) svcs \<noteq> None"
    by (auto simp: find_None_iff)
  with addPrice_cases [of i svcs 0] show ?thesis by auto
qed

text \<open>The sample dates, read by \<open>isoDate\<close>, and the total of the sample draft.\<close>

lemma isoDate_jan1: "isoDate ''2025-01-01'' = Some 1735689600000"
  by (simp add: isoDate_def digit_def days_in_month_def days_from_civil_def msPerDay_def)

lemma isoDate_jan3: "isoDate ''2025-01-03'' = Some 1735862400000"
  by (simp add: isoDate_def digit_def days_in_month_def days_from_civil_def msPerDay_def)

lemma isoDate_abc: "isoDate ''abc'' = None"
  by (simp add: isoDate_def)

lemma calculateTotal_draft_ok: "calculateTotal isoDate draft_ok = Num 250"
  by code_simp

section \<open>C1: sign of the total\<close>

text \<open>
  With the dates of the sample draft exchanged (check-in 2025-01-03, check-out
  2025-01-01) the calculator counts \<open>-2\<close> nights and returns \<open>-2 * 100 + 50 = -150\<close>:
  \<open>calculateTotal\<close> does not look at the order of the dates, only \<open>handleSubmit\<close>
  does, and the page shows the total as soon as both dates are filled in.
\<close>

theorem calculateTotal_negative_counterexample:
  "calculateTotal isoDate draft_reversed = Num (- 150)
   \<and> \<not> js_le (Num 0) (calculateTotal isoDate draft_reversed)"
proof -
  have "calculateTotal isoDate draft_reversed = Num (- 150)"
    by code_simp
  then show ?thesis by simp
qed

text \<open>
  C1, as the code has it: for a nightly rate that is not negative, selected services
  whose prices are not negative, and dates that are either missing or both readable with
  the check-out not before the check-in, \<open>calculateTotal\<close> returns a number that is not
  negative.
\<close>

theorem calculateTotal_nonneg:
  assumes rate: "\<forall>r. room st = Some r \<longrightarrow> 0 \<le> price_per_night r"
    and prices: "\<forall>s\<in>set (services st). id_Service s \<in> set (selectedServices st) \<longrightarrow> 0 \<le> price s"
    and dates: "checkIn (formData st) = [] \<or> checkOut (formData st) = []
                \<or> (\<exists>a b. newDate (checkIn (formData st)) = Some a
                        \<and> newDate (checkOut (formData st)) = Some b \<and> a \<le> b)"
  shows "\<exists>t. calculateTotal newDate st = Num t \<and> 0 \<le> t"
proof (cases "room st = None \<or> checkIn (formData st) = [] \<or> checkOut (formData st) = []")
  case True
  then have "calculateTotal newDate st = Num 0" by (rule calculateTotal_absent)
  then show ?thesis by simp
next
  case False
  then obtain r where r: "room st = Some r"
    and ci: "checkIn (formData st) \<noteq> []" and co: "checkOut (formData st) \<noteq> []"
    by auto
  with dates obtain a b where a: "newDate (checkIn (formData st)) = Some a"
    and b: "newDate (checkOut (formData st)) = Some b" and ab: "a \<le> b"
    by auto
  have "0 \<le> fl64 (price_per_night r)"
    using rate r by (intro fl64_nonneg) simp
  then have "0 \<le> real_of_int (nightsBetween a b) * fl64 (price_per_night r)"
    using nightsBetween_nonneg [OF ab] by simp
  then have "0 \<le> fl64 (real_of_int (nightsBetween a b) * fl64 (price_per_night r))"
    by (rule fl64_nonneg)
  then have "0 \<le> totalFrom (services st)
      (fl64 (real_of_int (nightsBetween a b) * fl64 (price_per_night r))) (selectedServices st)"
    using prices by (rule totalFrom_nonneg)
  then show ?thesis
    by (simp add: calculateTotal_valid [OF r ci co a b])
qed

theorem calculateTotal_nonneg_witness:
  "\<exists>t. calculateTotal isoDate draft_ok = Num t \<and> 0 \<le> t"
proof -
  have rate: "\<forall>r. room draft_ok = Some r \<longrightarrow> 0 \<le> price_per_night r"
    by (simp add: draft_ok_def room100_def)
  have prices: "\<forall>s\<in>set (services draft_ok).
      id_Service s \<in> set (selectedServices draft_ok) \<longrightarrow> 0 \<le> price s"
    by (simp add: draft_ok_def late50_def)
  have dates: "checkIn (formData draft_ok) = [] \<or> checkOut (formData draft_ok) = []
       \<or> (\<exists>a b. isoDate (checkIn (formData draft_ok)) = Some a
               \<and> isoDate (checkOut (formData draft_ok)) = Some b \<and> a \<le> b)"
    by (simp add: draft_ok_def isoDate_jan1 isoDate_jan3)
  from calculateTotal_nonneg [OF rate prices dates] show ?thesis .
qed

section \<open>C2: nights, and missing or unreadable dates\<close>

text \<open>
  A check-in that is not empty and not a date: the guard of \<open>calculateTotal\<close> only
  tests for empty strings, \<open>new Date\<close> yields an Invalid Date, and the total is \<open>NaN\<close>,
  not \<open>0\<close>.
\<close>

theorem calculateTotal_unreadable_counterexample:
  "calculateTotal isoDate draft_unreadable = NaN
   \<and> calculateTotal isoDate draft_unreadable \<noteq> Num 0"
proof -
  have "calculateTotal isoDate draft_unreadable = NaN"
    by (rule calculateTotal_invalid [where r = room100])
       (simp_all add: draft_unreadable_def draft_ok_def isoDate_abc)
  then show ?thesis by simp
qed

text \<open>
  C2, as the code has it: when the room and both dates are there and both dates are
  readable, the nights are the ceiling of the difference of the two dates in days of
  \<open>1000 * 60 * 60 * 24\<close> milliseconds, and the total is built from them (the binary64
  product with the nightly rate, then the selected services); when the room or one of
  the dates is missing (an empty string) the result is \<open>0\<close>; when both strings are
  there and one is unreadable the result is \<open>NaN\<close>. In no case does the calculator
  throw: it is a total function of the state.
\<close>

theorem calculateTotal_nights_or_zero:
  "(room st = Some r \<and> checkIn (formData st) \<noteq> [] \<and> checkOut (formData st) \<noteq> []
      \<and> newDate (checkIn (formData st)) = Some a \<and> newDate (checkOut (formData st)) = Some b
    \<longrightarrow> nights newDate (formData st)
          = Num (of_int \<lceil>real_of_int (b - a) / (1000 * 60 * 60 * 24)\<rceil>)
      \<and> calculateTotal newDate st
          = Num (totalFrom (services st)
                   (fl64 (of_int \<lceil>real_of_int (b - a) / (1000 * 60 * 60 * 24)\<rceil>
                          * fl64 (price_per_night r)))
                   (selectedServices st)))
   \<and> (room st = None \<or> checkIn (formData st) = [] \<or> checkOut (formData st) = []
    \<longrightarrow> calculateTotal newDate st = Num 0)
   \<and> (room st = Some r \<and> checkIn (formData st) \<noteq> [] \<and> checkOut (formData st) \<noteq> []
      \<and> (newDate (checkIn (formData st)) = None \<or> newDate (checkOut (formData st)) = None)
    \<longrightarrow> calculateTotal newDate st = NaN)"
proof -
  have n: "nightsBetween a b = \<lceil>real_of_int (b - a) / (1000 * 60 * 60 * 24)\<rceil>"
    by (simp add: nightsBetween_def msPerDay_def)
  have valid: "room st = Some r \<and> checkIn (formData st) \<noteq> [] \<and> checkOut (formData st) \<noteq> []
      \<and> newDate (checkIn (formData st)) = Some a \<and> newDate (checkOut (formData st)) = Some b
    \<longrightarrow> nights newDate (formData st)
          = Num (of_int \<lceil>real_of_int (b - a) / (1000 * 60 * 60 * 24)\<rceil>)
      \<and> calculateTotal newDate st
          = Num (totalFrom (services st)
                   (fl64 (of_int \<lceil>real_of_int (b - a) / (1000 * 60 * 60 * 24)\<rceil>
                          * fl64 (price_per_night r)))
                   (selectedServices st))"
    using nights_valid [of newDate "formData st" a b] calculateTotal_valid [of st r newDate a b]
    by (simp add: n)
  have absent: "room st = None \<or> checkIn (formData st) = [] \<or> checkOut (formData st) = []
    \<longrightarrow> calculateTotal newDate st = Num 0"
    using calculateTotal_absent [of st newDate] by blast
  have invalid: "room st = Some r \<and> checkIn (formData st) \<noteq> [] \<and> checkOut (formData st) \<noteq> []
      \<and> (newDate (checkIn (formData st)) = None \<or> newDate (checkOut (formData st)) = None)
    \<longrightarrow> calculateTotal newDate st = NaN"
    using calculateTotal_invalid [of st r newDate] by blast
  from valid absent invalid show ?thesis by blast
qed

theorem calculateTotal_nights_or_zero_witness:
  "nights isoDate (formData draft_ok) = Num 2
   \<and> calculateTotal isoDate draft_ok = Num 250
   \<and> calculateTotal isoDate draft_blank = Num 0
   \<and> calculateTotal isoDate draft_unreadable = NaN"
proof -
  note ok = calculateTotal_nights_or_zero [where st = draft_ok and r = room100
      and newDate = isoDate and a = 1735689600000 and b = 1735862400000]
  note blank = calculateTotal_nights_or_zero [where st = draft_blank and r = room100
      and newDate = isoDate and a = 0 and b = 0]
  note unreadable = calculateTotal_nights_or_zero [where st = draft_unreadable and r = room100
      and newDate = isoDate and a = 0 and b = 0]
  have h1: "room draft_ok = Some room100 \<and> checkIn (formData draft_ok) \<noteq> []
      \<and> checkOut (formData draft_ok) \<noteq> []
      \<and> isoDate (checkIn (formData draft_ok)) = Some 1735689600000
      \<and> isoDate (checkOut (formData draft_ok)) = Some 1735862400000"
    by (simp add: draft_ok_def isoDate_jan1 isoDate_jan3)
  have h2: "room draft_blank = None \<or> checkIn (formData draft_blank) = []
      \<or> checkOut (formData draft_blank) = []"
    by (simp add: draft_blank_def)
  have h3: "room draft_unreadable = Some room100 \<and> checkIn (formData draft_unreadable) \<noteq> []
      \<and> checkOut (formData draft_unreadable) \<noteq> []
      \<and> (isoDate (checkIn (formData draft_unreadable)) = None
         \<or> isoDate (checkOut (formData draft_unreadable)) = None)"
    by (simp add: draft_unreadable_def draft_ok_def isoDate_abc)
  have c: "\<lceil>real_of_int (1735862400000 - 1735689600000) / (1000 * 60 * 60 * 24)\<rceil> = 2"
    by simp
  from ok h1 have "nights isoDate (formData draft_ok) = Num 2"
    by (simp add: c)
  moreover from ok h1 have "calculateTotal isoDate draft_ok = Num 250"
    by (simp only: calculateTotal_draft_ok)
  moreover from blank h2 have "calculateTotal isoDate draft_blank = Num 0" by blast
  moreover from unreadable h3 have "calculateTotal isoDate draft_unreadable = NaN" by blast
  ultimately show ?thesis by simp
qed

section \<open>C3: the formula of the total\<close>

text \<open>
  One night at 0.10 with one service at 0.20: the calculator returns
  0.30000000000000004 (\<open>1351079888211149 / 2 ^ 52\<close>). That is neither 0.30 nor the sum
  of the two binary64 values the page holds for 0.10 and 0.20: the addition is rounded.
\<close>

theorem calculateTotal_formula_counterexample:
  "calculateTotal isoDate draft_cents = Num (1351079888211149 / 4503599627370496)
   \<and> isoDate (checkIn (formData draft_cents)) = Some 1735689600000
   \<and> isoDate (checkOut (formData draft_cents)) = Some 1735776000000
   \<and> nightsBetween 1735689600000 1735776000000 = 1
   \<and> calculateTotal isoDate draft_cents
      \<noteq> Num (of_int (nightsBetween 1735689600000 1735776000000) * price_per_night room010
               + priceOf (services draft_cents) ''s1'')
   \<and> calculateTotal isoDate draft_cents
      \<noteq> Num (of_int (nightsBetween 1735689600000 1735776000000) * fl64 (price_per_night room010)
               + fl64 (priceOf (services draft_cents) ''s1''))"
  by code_simp

text \<open>
  C3, as the code has it: for a room, two readable dates with the check-out strictly
  after the check-in, and a selection without repetition whose identifiers are all in
  the list of active services, the total is the binary64 product of the nights and
  \<open>price_per_night\<close> to which the price of each selected service is added once, in the
  order of the selection, every amount read and every operation rounded to binary64. It
  equals the exact \<open>nights * price_per_night + sum of the selected prices\<close> up to that
  rounding: with \<open>k\<close> selected services the two differ by at most
  \<open>(1 + eps64) ^ (2 * k + 2) - 1\<close> times the sum of the absolute values of the terms. The
  nights are at least one; no quantity enters the sum.
\<close>

theorem calculateTotal_formula_rounded:
  assumes r: "room st = Some r"
    and ne: "checkIn (formData st) \<noteq> []" "checkOut (formData st) \<noteq> []"
    and ci: "newDate (checkIn (formData st)) = Some a"
    and co: "newDate (checkOut (formData st)) = Some b"
    and after: "a < b"
    and once: "distinct (selectedServices st)"
    and listed: "set (selectedServices st) \<subseteq> id_Service ` set (services st)"
  shows "\<exists>t. calculateTotal newDate st = Num t
         \<and> t = totalFrom (services st)
                 (fl64 (of_int (nightsBetween a b) * fl64 (price_per_night r)))
                 (selectedServices st)
         \<and> \<bar>t - (of_int (nightsBetween a b) * price_per_night r
                 + (\<Sum>i\<in>set (selectedServices st). priceOf (services st) i))\<bar>
             \<le> ((1 + eps64) ^ (2 * card (set (selectedServices st)) + 2) - 1)
                * (\<bar>of_int (nightsBetween a b) * price_per_night r\<bar>
                   + (\<Sum>i\<in>set (selectedServices st). \<bar>priceOf (services st) i\<bar>))
         \<and> 1 \<le> nightsBetween a b
         \<and> (\<forall>i\<in>set (selectedServices st).
               \<exists>s\<in>set (services st). id_Service s = i \<and> priceOf (services st) i = price s)"
proof -
  let ?n = "real_of_int (nightsBetween a b)"
  let ?nr = "?n * price_per_night r"
  let ?t = "totalFrom (services st) (fl64 (?n * fl64 (price_per_night r))) (selectedServices st)"
  have total: "calculateTotal newDate st = Num ?t"
    by (rule calculateTotal_valid [OF r ne ci co])
  have start: "\<bar>fl64 (?n * fl64 (price_per_night r)) - ?nr\<bar> \<le> ((1 + eps64) ^ 2 - 1) * \<bar>?nr\<bar>"
    by (rule product_error)
  have "\<bar>?t - (?nr + sum_list (map (priceOf (services st)) (selectedServices st)))\<bar>
          \<le> ((1 + eps64) ^ (2 + 2 * length (selectedServices st)) - 1)
             * (\<bar>?nr\<bar> + sum_list (map (\<lambda>i. \<bar>priceOf (services st) i\<bar>) (selectedServices st)))"
    using start by (rule totalFrom_error) simp
  moreover have "sum_list (map (priceOf (services st)) (selectedServices st))
          = (\<Sum>i\<in>set (selectedServices st). priceOf (services st) i)"
    using once by (rule sum_list_distinct_conv_sum_set)
  moreover have "sum_list (map (\<lambda>i. \<bar>priceOf (services st) i\<bar>) (selectedServices st))
          = (\<Sum>i\<in>set (selectedServices st). \<bar>priceOf (services st) i\<bar>)"
    using once by (rule sum_list_distinct_conv_sum_set)
  moreover have "2 + 2 * length (selectedServices st) = 2 * card (set (selectedServices st)) + 2"
    using once by (simp add: distinct_card)
  ultimately have err: "\<bar>?t - (?nr + (\<Sum>i\<in>set (selectedServices st). priceOf (services st) i))\<bar>
             \<le> ((1 + eps64) ^ (2 * card (set (selectedServices st)) + 2) - 1)
                * (\<bar>?nr\<bar> + (\<Sum>i\<in>set (selectedServices st). \<bar>priceOf (services st) i\<bar>))"
    by (simp only:)
  have "0 < real_of_int (b - a) / real_of_int msPerDay"
    using after by (simp add: msPerDay_def)
  then have nights: "1 \<le> nightsBetween a b"
    unfolding nightsBetween_def by linarith
  have known: "\<forall>i\<in>set (selectedServices st).
               \<exists>s\<in>set (services st). id_Service s = i \<and> priceOf (services st) i = price s"
    using listed by (auto intro!: priceOf_known)
  from total err nights known show ?thesis by blast
qed

theorem calculateTotal_formula_rounded_witness:
  "\<exists>t. calculateTotal isoDate draft_ok = Num t \<and> t = 250
     \<and> \<bar>t - (2 * 100 + 50)\<bar> \<le> ((1 + eps64) ^ 4 - 1) * (\<bar>2 * 100\<bar> + \<bar>50\<bar>)"
proof -
  have r: "room draft_ok = Some room100"
    and ne: "checkIn (formData draft_ok) \<noteq> []" "checkOut (formData draft_ok) \<noteq> []"
    and ci: "isoDate (checkIn (formData draft_ok)) = Some 1735689600000"
    and co: "isoDate (checkOut (formData draft_ok)) = Some 1735862400000"
    and after: "(1735689600000::int) < 1735862400000"
    and once: "distinct (selectedServices draft_ok)"
    and listed: "set (selectedServices draft_ok) \<subseteq> id_Service ` set (services draft_ok)"
    by (simp_all add: draft_ok_def late50_def isoDate_jan1 isoDate_jan3)
  have v: "selectedServices draft_ok = [''s1'']" "priceOf (services draft_ok) ''s1'' = 50"
    "price_per_night room100 = 100" "nightsBetween 1735689600000 1735862400000 = 2"
    by (simp_all add: draft_ok_def room100_def late50_def priceOf_def nightsBetween_def msPerDay_def)
  from calculateTotal_formula_rounded [OF r ne ci co after once listed]
  obtain t where t: "calculateTotal isoDate draft_ok = Num t"
    and e: "\<bar>t - (of_int (nightsBetween 1735689600000 1735862400000) * price_per_night room100
                 + (\<Sum>i\<in>set (selectedServices draft_ok). priceOf (services draft_ok) i))\<bar>
             \<le> ((1 + eps64) ^ (2 * card (set (selectedServices draft_ok)) + 2) - 1)
                * (\<bar>of_int (nightsBetween 1735689600000 1735862400000) * price_per_night room100\<bar>
                   + (\<Sum>i\<in>set (selectedServices draft_ok). \<bar>priceOf (services draft_ok) i\<bar>))"
    by blast
  from t have "t = 250" by (simp add: calculateTotal_draft_ok)
  moreover from e have "\<bar>t - (2 * 100 + 50)\<bar> \<le> ((1 + eps64) ^ 4 - 1) * (\<bar>2 * 100\<bar> + \<bar>50\<bar>)"
    by (simp add: v)
  ultimately show ?thesis using t by blast
qed

section \<open>C8: the total and nights times rate\<close>

text \<open>
  Three nights at 0.70, nothing selected: the product is rounded down to
  2.0999999999999996 (\<open>1182194902184755 / 2 ^ 49\<close>), below three times 0.70 and below
  three times the binary64 value the page holds for 0.70.
\<close>

theorem calculateTotal_below_product_counterexample:
  "calculateTotal isoDate draft_three_nights = Num (1182194902184755 / 562949953421312)
   \<and> isoDate (checkIn (formData draft_three_nights)) = Some 1735689600000
   \<and> isoDate (checkOut (formData draft_three_nights)) = Some 1735948800000
   \<and> nightsBetween 1735689600000 1735948800000 = 3
   \<and> 0 \<le> price_per_night room070
   \<and> (1182194902184755 / 562949953421312 :: real)
        < of_int (nightsBetween 1735689600000 1735948800000) * price_per_night room070
   \<and> (1182194902184755 / 562949953421312 :: real)
        < of_int (nightsBetween 1735689600000 1735948800000) * fl64 (price_per_night room070)"
  by code_simp

text \<open>
  C8, as the code has it: when the selected services have prices that are not negative,
  the total is at least the binary64 product of the nights and the nightly rate, the
  value of \<open>nights * room.price_per_night\<close> in the code: the services can only
  increase it. Against the exact product \<open>n * r\<close>, for \<open>0 \<le> n\<close> and \<open>0 \<le> r\<close>, the total
  is at least \<open>(1 - eps64) ^ 2 * n * r\<close>.
\<close>

theorem calculateTotal_at_least_rounded_product:
  assumes r: "room st = Some r"
    and ne: "checkIn (formData st) \<noteq> []" "checkOut (formData st) \<noteq> []"
    and ci: "newDate (checkIn (formData st)) = Some a"
    and co: "newDate (checkOut (formData st)) = Some b"
    and prices: "\<forall>s\<in>set (services st). id_Service s \<in> set (selectedServices st) \<longrightarrow> 0 \<le> price s"
  shows "\<exists>t. calculateTotal newDate st = Num t
           \<and> fl64 (of_int (nightsBetween a b) * fl64 (price_per_night r)) \<le> t
           \<and> (0 \<le> nightsBetween a b \<and> 0 \<le> price_per_night r \<longrightarrow>
                (1 - eps64) ^ 2 * (of_int (nightsBetween a b) * price_per_night r) \<le> t)"
proof -
  let ?n = "real_of_int (nightsBetween a b)"
  let ?p = "fl64 (?n * fl64 (price_per_night r))"
  let ?t = "totalFrom (services st) ?p (selectedServices st)"
  have total: "calculateTotal newDate st = Num ?t"
    by (rule calculateTotal_valid [OF r ne ci co])
  have ge: "?p \<le> ?t"
    using fl64_idem prices by (rule totalFrom_ge)
  have "(1 - eps64) ^ 2 * (?n * price_per_night r) \<le> ?t"
    if "0 \<le> nightsBetween a b \<and> 0 \<le> price_per_night r"
  proof -
    have "(1 - eps64) ^ 2 * (?n * price_per_night r) \<le> ?p"
      using that by (intro product_lower) simp_all
    with ge show ?thesis by linarith
  qed
  with total ge show ?thesis by blast
qed

theorem calculateTotal_at_least_rounded_product_witness:
  "\<exists>t. calculateTotal isoDate draft_ok = Num t \<and> t = 250 \<and> fl64 (2 * fl64 100) \<le> t
     \<and> (1 - eps64) ^ 2 * (2 * 100) \<le> t"
proof -
  have r: "room draft_ok = Some room100"
    and ne: "checkIn (formData draft_ok) \<noteq> []" "checkOut (formData draft_ok) \<noteq> []"
    and ci: "isoDate (checkIn (formData draft_ok)) = Some 1735689600000"
    and co: "isoDate (checkOut (formData draft_ok)) = Some 1735862400000"
    and prices: "\<forall>s\<in>set (services draft_ok).
        id_Service s \<in> set (selectedServices draft_ok) \<longrightarrow> 0 \<le> price s"
    by (simp_all add: draft_ok_def late50_def isoDate_jan1 isoDate_jan3)
  have v: "price_per_night room100 = 100" "nightsBetween 1735689600000 1735862400000 = 2"
    by (simp_all add: room100_def nightsBetween_def msPerDay_def)
  from calculateTotal_at_least_rounded_product [OF r ne ci co prices]
  obtain t where t: "calculateTotal isoDate draft_ok = Num t"
    and g: "fl64 (of_int (nightsBetween 1735689600000 1735862400000)
                  * fl64 (price_per_night room100)) \<le> t"
    and h: "0 \<le> nightsBetween 1735689600000 1735862400000 \<and> 0 \<le> price_per_night room100 \<longrightarrow>
        (1 - eps64) ^ 2
          * (of_int (nightsBetween 1735689600000 1735862400000) * price_per_night room100) \<le> t"
    by blast
  from t have "t = 250" by (simp add: calculateTotal_draft_ok)
  moreover from g have "fl64 (2 * fl64 100) \<le> t" by (simp add: v)
  moreover from h have "(1 - eps64) ^ 2 * (2 * 100) \<le> t" by (simp add: v)
  ultimately show ?thesis using t by blast
qed

section \<open>Auxiliary facts about validation and submission\<close>

lemma parse_Inr_iff:
  "bookingSchema_parse ci co g = Inr v \<longleftrightarrow>
     (\<exists>n. g = Num n \<and> 1 \<le> n \<and> ci \<noteq> [] \<and> co \<noteq> [] \<and> v = (ci, co, n))"
  by (cases g) (auto simp: bookingSchema_parse_def Let_def split: list.splits)

lemma parse_Inl_nonempty: "bookingSchema_parse ci co g = Inl iss \<Longrightarrow> iss \<noteq> []"
  by (cases g) (auto simp: bookingSchema_parse_def Let_def split: list.splits if_splits)

lemma parse_guests_low:
  assumes "n < 1"
  shows "bookingSchema_parse ci co (Num n) =
           Inl ((if ci = [] then [ZodIssue ''checkIn'' msg_checkIn] else [])
              @ (if co = [] then [ZodIssue ''checkOut'' msg_checkOut] else [])
              @ [ZodIssue ''guests'' msg_guests])"
  using assms by (simp add: bookingSchema_parse_def Let_def split: list.splits)

text \<open>The four ways through \<open>handleSubmit\<close>.\<close>

lemma handleSubmit_no_session:
  assumes "user st = None \<or> room st = None"
  shows "handleSubmit newDate sb st d = ([toast_error msg_session], d)"
  using assms by (auto simp: handleSubmit_def split: option.splits)

lemma handleSubmit_invalid:
  assumes "user st = Some u" and "room st = Some r"
    and "bookingSchema_parse (checkIn (formData st)) (checkOut (formData st))
           (guests (formData st)) = Inl (i # rest)"
  shows "handleSubmit newDate sb st d = ([toast_error (message i)], d)"
  using assms by (simp add: handleSubmit_def)

lemma handleSubmit_date_order:
  assumes "user st = Some u" and "room st = Some r"
    and "guests (formData st) = Num n" and "1 \<le> n"
    and "checkIn (formData st) \<noteq> []" and "checkOut (formData st) \<noteq> []"
    and "js_le (getTime (newDate (checkOut (formData st)))) (getTime (newDate (checkIn (formData st))))"
  shows "handleSubmit newDate sb st d = ([toast_error msg_dates], d)"
proof -
  have "bookingSchema_parse (checkIn (formData st)) (checkOut (formData st))
          (guests (formData st)) = Inr (checkIn (formData st), checkOut (formData st), n)"
    using assms by (simp add: parse_Inr_iff)
  then show ?thesis using assms by (simp add: handleSubmit_def)
qed

lemma handleSubmit_accepted:
  assumes "user st = Some u" and "room st = Some r"
    and "guests (formData st) = Num n" and "1 \<le> n"
    and "checkIn (formData st) \<noteq> []" and "checkOut (formData st) \<noteq> []"
    and "\<not> js_le (getTime (newDate (checkOut (formData st)))) (getTime (newDate (checkIn (formData st))))"
  shows "handleSubmit newDate sb st d =
    (case bookings_insert sb d (submittedBooking newDate st u r n) of
       Inl e \<Rightarrow> ([insert_bookings (submittedBooking newDate st u r n),
                   toast_error (catch_message e)], d)
     | Inr i \<Rightarrow>
        (let row = storedBooking i (submittedBooking newDate st u r n);
             d1 = d\<lparr>bookings := bookings d @ [row]\<rparr>;
             recs = serviceRecords row (selectedServices st)
         in if selectedServices st = [] then
              ([insert_bookings (submittedBooking newDate st u r n),
                toast_success msg_created, navigate (''/payment/'' @ i)], d1)
            else (case booking_services_insert sb d1 recs of
                    Some e \<Rightarrow> ([insert_bookings (submittedBooking newDate st u r n),
                                insert_booking_services recs,
                                toast_error (catch_message e)], d1)
                  | None \<Rightarrow> ([insert_bookings (submittedBooking newDate st u r n),
                              insert_booking_services recs,
                              toast_success msg_created, navigate (''/payment/'' @ i)],
                             d1\<lparr>booking_services := booking_services d1 @ recs\<rparr>))))"
proof -
  have p: "bookingSchema_parse (checkIn (formData st)) (checkOut (formData st))
          (guests (formData st)) = Inr (checkIn (formData st), checkOut (formData st), n)"
    using assms by (simp add: parse_Inr_iff)
  have i: "id_Booking (storedBooking i b) = i" for i b
    by (simp add: storedBooking_def BookingInsert.extend_def Booking.fields_def)
  show ?thesis
    using assms(1,2,7)
    by (simp add: handleSubmit_def p Let_def insert_booking_def insert_services_def
        submittedBooking_def [symmetric] storedBooking_def [symmetric] i
        split: sum.splits option.splits)
qed


text \<open>A run that shows the success toast went all the way, and wrote exactly this.\<close>

lemma success_shape:
  assumes run: "handleSubmit newDate sb st d = (evs, d')"
    and ok: "toast_success m \<in> set evs"
  shows "\<exists>u r n i. user st = Some u \<and> room st = Some r
           \<and> guests (formData st) = Num n \<and> 1 \<le> n
           \<and> checkIn (formData st) \<noteq> [] \<and> checkOut (formData st) \<noteq> []
           \<and> \<not> js_le (getTime (newDate (checkOut (formData st))))
                       (getTime (newDate (checkIn (formData st))))
           \<and> bookings_insert sb d (submittedBooking newDate st u r n) = Inr i
           \<and> d' = d\<lparr>bookings := bookings d @ [storedBooking i (submittedBooking newDate st u r n)],
                     booking_services := booking_services d
                        @ serviceRecords (storedBooking i (submittedBooking newDate st u r n))
                            (selectedServices st)\<rparr>"
proof (cases "user st = None \<or> room st = None")
  case True
  from handleSubmit_no_session [OF True] run ok show ?thesis by auto
next
  case False
  then obtain u r where u: "user st = Some u" and r: "room st = Some r" by auto
  show ?thesis
  proof (cases "bookingSchema_parse (checkIn (formData st)) (checkOut (formData st))
                  (guests (formData st))")
    case (Inl iss)
    then obtain i rest where "iss = i # rest"
      using parse_Inl_nonempty [OF Inl] by (cases iss) auto
    with Inl handleSubmit_invalid [OF u r] run ok show ?thesis by auto
  next
    case (Inr v)
    then obtain n where n: "guests (formData st) = Num n" "1 \<le> n"
      and ci: "checkIn (formData st) \<noteq> []" and co: "checkOut (formData st) \<noteq> []"
      by (auto simp: parse_Inr_iff)
    show ?thesis
    proof (cases "js_le (getTime (newDate (checkOut (formData st))))
                        (getTime (newDate (checkIn (formData st))))")
      case True
      from handleSubmit_date_order [OF u r n ci co True] run ok show ?thesis by auto
    next
      case False
      note acc = handleSubmit_accepted [OF u r n ci co False, of sb d]
      show ?thesis
      proof (cases "bookings_insert sb d (submittedBooking newDate st u r n)")
        case (Inl e)
        with acc run ok show ?thesis by auto
      next
        case (Inr i)
        show ?thesis
        proof (cases "selectedServices st = []")
          case True
          with acc Inr run have "d' = d\<lparr>bookings := bookings d
              @ [storedBooking i (submittedBooking newDate st u r n)]\<rparr>"
            by (simp add: Let_def)
          with True u r n ci co False Inr show ?thesis
            by (simp add: serviceRecords_def)
        next
          case ne: False
          show ?thesis
          proof (cases "booking_services_insert sb
                  (d\<lparr>bookings := bookings d @ [storedBooking i (submittedBooking newDate st u r n)]\<rparr>)
                  (serviceRecords (storedBooking i (submittedBooking newDate st u r n))
                     (selectedServices st))")
            case (Some e)
            with acc Inr ne run ok show ?thesis by (auto simp: Let_def)
          next
            case None
            with acc Inr ne run have "d' = d\<lparr>bookings := bookings d
                @ [storedBooking i (submittedBooking newDate st u r n)],
              booking_services := booking_services d
                @ serviceRecords (storedBooking i (submittedBooking newDate st u r n))
                    (selectedServices st)\<rparr>"
              by (simp add: Let_def)
            with u r n ci co False Inr show ?thesis by simp
          qed
        qed
      qed
    qed
  qed
qed

lemma draft_ok_accepted:
  "user draft_ok = Some ''u1''" "room draft_ok = Some room100"
  "guests (formData draft_ok) = Num 2" "(1::real) \<le> 2"
  "checkIn (formData draft_ok) \<noteq> []" "checkOut (formData draft_ok) \<noteq> []"
  "\<not> js_le (getTime (isoDate (checkOut (formData draft_ok))))
            (getTime (isoDate (checkIn (formData draft_ok))))"
  by (simp_all add: draft_ok_def isoDate_jan1 isoDate_jan3)

section \<open>C4: check-out not after check-in\<close>

text \<open>
  C4: when both dates are readable and the check-out is not after the check-in,
  \<open>handleSubmit\<close> leaves the tables as they are and does nothing but show one error:
  no insert into \<open>bookings\<close> or \<open>booking_services\<close> is sent. This holds whatever the
  session, the guest count and the store are.
\<close>

theorem handleSubmit_rejects_date_order:
  assumes ci: "newDate (checkIn (formData st)) = Some a"
    and co: "newDate (checkOut (formData st)) = Some b"
    and le: "b \<le> a"
  shows "snd (handleSubmit newDate sb st d) = d
         \<and> (\<exists>m. fst (handleSubmit newDate sb st d) = [toast_error m])"
proof (cases "user st = None \<or> room st = None")
  case True
  then show ?thesis by (simp add: handleSubmit_no_session)
next
  case False
  then obtain u r where u: "user st = Some u" and r: "room st = Some r" by auto
  show ?thesis
  proof (cases "bookingSchema_parse (checkIn (formData st)) (checkOut (formData st))
                  (guests (formData st))")
    case (Inl iss)
    then obtain i rest where "iss = i # rest"
      using parse_Inl_nonempty [OF Inl] by (cases iss) auto
    with Inl show ?thesis by (simp add: handleSubmit_invalid [OF u r])
  next
    case (Inr v)
    then obtain n where n: "guests (formData st) = Num n" "1 \<le> n"
      and ne: "checkIn (formData st) \<noteq> []" "checkOut (formData st) \<noteq> []"
      by (auto simp: parse_Inr_iff)
    have "js_le (getTime (newDate (checkOut (formData st))))
                (getTime (newDate (checkIn (formData st))))"
      using ci co le by simp
    from handleSubmit_date_order [OF u r n ne this] show ?thesis by simp
  qed
qed

theorem handleSubmit_rejects_date_order_witness:
  "snd (handleSubmit isoDate store_ok draft_reversed db_empty) = db_empty
   \<and> (\<exists>m. fst (handleSubmit isoDate store_ok draft_reversed db_empty) = [toast_error m])
   \<and> handleSubmit isoDate store_ok draft_reversed db_empty = ([toast_error msg_dates], db_empty)"
proof -
  have ci: "isoDate (checkIn (formData draft_reversed)) = Some 1735862400000"
    and co: "isoDate (checkOut (formData draft_reversed)) = Some 1735689600000"
    by (simp_all add: draft_reversed_def isoDate_jan1 isoDate_jan3)
  have le: "(1735689600000::int) \<le> 1735862400000" by simp
  have e: "handleSubmit isoDate store_ok draft_reversed db_empty = ([toast_error msg_dates], db_empty)"
    by (rule handleSubmit_date_order [where u = "''u1''" and r = room100 and n = 2])
       (simp_all add: draft_reversed_def draft_ok_def isoDate_jan1 isoDate_jan3)
  from handleSubmit_rejects_date_order [OF ci co le, of store_ok db_empty] e
  show ?thesis by simp
qed

section \<open>C5: a guest count below one\<close>

text \<open>
  No guest and the dates reversed, both filled in: of the checks "dates present,
  check-out after check-in, guests at least 1" the first that fails is the order of the
  dates, but the message shown is the one of \<open>guests\<close>. The order of the dates is no part
  of \<open>bookingSchema\<close>; \<open>handleSubmit\<close> looks at it only after \<open>parse\<close> has let the
  draft through.
\<close>

theorem handleSubmit_guests_before_date_order_counterexample:
  "handleSubmit isoDate store_ok draft_reversed_no_guest db_empty
     = ([toast_error msg_guests], db_empty)
   \<and> checkIn (formData draft_reversed_no_guest) \<noteq> []
   \<and> checkOut (formData draft_reversed_no_guest) \<noteq> []
   \<and> js_le (getTime (isoDate (checkOut (formData draft_reversed_no_guest))))
            (getTime (isoDate (checkIn (formData draft_reversed_no_guest))))
   \<and> msg_guests \<noteq> msg_dates"
  by code_simp

text \<open>
  C5, as the code has it: with a session and a room, a guest count below 1 makes
  \<open>bookingSchema.parse\<close> fail; the error holds an issue for the field \<open>guests\<close>; the
  message shown is that of the first issue, in the order check-in present, check-out
  present, guests at least 1, hence the one of \<open>guests\<close> when both dates are filled in.
  The tables are left as they are and nothing is sent. The outcome is the same for any
  other room, list of services, selection, date function and store: neither the total
  nor the order of the dates takes part in it, the latter being checked only once these
  three checks have passed.
\<close>

theorem handleSubmit_guests_below_one:
  assumes u: "user st = Some u" and r: "room st = Some r"
    and g: "guests (formData st) = Num n" and low: "n < 1"
  shows "\<exists>issues.
           bookingSchema_parse (checkIn (formData st)) (checkOut (formData st))
             (guests (formData st)) = Inl issues
         \<and> ZodIssue ''guests'' msg_guests \<in> set issues
         \<and> hd issues =
             (if checkIn (formData st) = [] then ZodIssue ''checkIn'' msg_checkIn
              else if checkOut (formData st) = [] then ZodIssue ''checkOut'' msg_checkOut
              else ZodIssue ''guests'' msg_guests)
         \<and> handleSubmit newDate sb st d = ([toast_error (message (hd issues))], d)
         \<and> handleSubmit newDate' sb'
              (st\<lparr>room := Some r', services := svcs, selectedServices := sel\<rparr>) d
             = handleSubmit newDate sb st d"
proof -
  let ?issues = "(if checkIn (formData st) = [] then [ZodIssue ''checkIn'' msg_checkIn] else [])
              @ (if checkOut (formData st) = [] then [ZodIssue ''checkOut'' msg_checkOut] else [])
              @ [ZodIssue ''guests'' msg_guests]"
  let ?st' = "st\<lparr>room := Some r', services := svcs, selectedServices := sel\<rparr>"
  have p: "bookingSchema_parse (checkIn (formData st)) (checkOut (formData st))
             (guests (formData st)) = Inl ?issues"
    using g parse_guests_low [OF low] by simp
  obtain i rest where ir: "?issues = i # rest"
    by (cases ?issues) auto
  have h: "handleSubmit newDate sb st d = ([toast_error (message i)], d)"
    using p ir by (simp add: handleSubmit_invalid [OF u r])
  have p': "bookingSchema_parse (checkIn (formData ?st')) (checkOut (formData ?st'))
             (guests (formData ?st')) = Inl (i # rest)"
    using p ir by simp
  have h': "handleSubmit newDate' sb' ?st' d = ([toast_error (message i)], d)"
    by (rule handleSubmit_invalid [OF _ _ p']) (simp_all add: u)
  have hd: "hd ?issues = i" using ir by simp
  have "ZodIssue ''guests'' msg_guests \<in> set ?issues" by simp
  moreover have "hd ?issues =
             (if checkIn (formData st) = [] then ZodIssue ''checkIn'' msg_checkIn
              else if checkOut (formData st) = [] then ZodIssue ''checkOut'' msg_checkOut
              else ZodIssue ''guests'' msg_guests)" by simp
  moreover have "handleSubmit newDate sb st d = ([toast_error (message (hd ?issues))], d)"
    using h hd by simp
  moreover have "handleSubmit newDate' sb' ?st' d = handleSubmit newDate sb st d"
    using h h' by simp
  ultimately show ?thesis using p by blast
qed

theorem handleSubmit_guests_below_one_witness:
  "handleSubmit isoDate store_ok
     (draft_ok\<lparr>formData := (formData draft_ok)\<lparr>guests := Num 0\<rparr>\<rparr>) db_empty
   = ([toast_error msg_guests], db_empty)"
proof -
  let ?st = "draft_ok\<lparr>formData := (formData draft_ok)\<lparr>guests := Num 0\<rparr>\<rparr>"
  have u: "user ?st = Some ''u1''" and r: "room ?st = Some room100"
    and g: "guests (formData ?st) = Num 0" and low: "(0::real) < 1"
    by (simp_all add: draft_ok_def)
  have ne: "checkIn (formData ?st) \<noteq> []" "checkOut (formData ?st) \<noteq> []"
    by (simp_all add: draft_ok_def)
  from handleSubmit_guests_below_one [OF u r g low, where newDate = isoDate and sb = store_ok
      and d = db_empty and newDate' = isoDate and sb' = store_ok and r' = room100
      and svcs = "[]" and sel = "[]"]
  obtain issues where "hd issues = ZodIssue ''guests'' msg_guests"
    and "handleSubmit isoDate store_ok ?st db_empty = ([toast_error (message (hd issues))], db_empty)"
    using ne by auto
  then show ?thesis by simp
qed

section \<open>C6: what a successful submission writes\<close>

lemma id_storedBooking: "id_Booking (storedBooking i b) = i"
  by (simp add: storedBooking_def BookingInsert.extend_def Booking.fields_def)

lemma status_storedBooking: "status (storedBooking i b) = status b"
  by (simp add: storedBooking_def BookingInsert.extend_def Booking.fields_def)

lemma total_storedBooking: "total_amount (storedBooking i b) = total_amount b"
  by (simp add: storedBooking_def BookingInsert.extend_def Booking.fields_def)

lemma handleSubmit_draft_ok:
  "handleSubmit isoDate store_ok draft_ok db_empty =
     ([insert_bookings (submittedBooking isoDate draft_ok ''u1'' room100 2),
       insert_booking_services
         [\<lparr>booking_id = ''b1'', service_id = ''s1'', quantity = 1\<rparr>],
       toast_success msg_created, navigate ''/payment/b1''],
      \<lparr>additional_services = [],
       bookings = [storedBooking ''b1'' (submittedBooking isoDate draft_ok ''u1'' room100 2)],
       booking_services = [\<lparr>booking_id = ''b1'', service_id = ''s1'', quantity = 1\<rparr>]\<rparr>)"
proof -
  have sel: "selectedServices draft_ok = [''s1'']" by (simp add: draft_ok_def)
  show ?thesis
    by (simp add: handleSubmit_accepted [OF draft_ok_accepted] store_ok_def db_empty_def
        Let_def sel serviceRecords_def id_storedBooking)
qed

text \<open>
  C6: a run of \<open>handleSubmit\<close> that reports success has added exactly one row to
  \<open>bookings\<close>, with status \<open>pendiente\<close> (pending), and to \<open>booking_services\<close> exactly
  one row per selected identifier, in the order of the selection, each with the
  identifier of the new booking and quantity 1.
\<close>

theorem handleSubmit_success_rows:
  assumes run: "handleSubmit newDate sb st d = (evs, d')"
    and ok: "toast_success m \<in> set evs"
  shows "\<exists>booking.
           bookings d' = bookings d @ [booking]
         \<and> status booking = pendiente
         \<and> booking_services d' = booking_services d
              @ map (\<lambda>serviceId. \<lparr>booking_id = id_Booking booking, service_id = serviceId,
                                  quantity = 1\<rparr>) (selectedServices st)
         \<and> length (bookings d') = length (bookings d) + 1
         \<and> length (booking_services d')
              = length (booking_services d) + length (selectedServices st)"
proof -
  from success_shape [OF run ok] obtain u r n i where
    d': "d' = d\<lparr>bookings := bookings d @ [storedBooking i (submittedBooking newDate st u r n)],
                 booking_services := booking_services d
                    @ serviceRecords (storedBooking i (submittedBooking newDate st u r n))
                        (selectedServices st)\<rparr>"
    by blast
  let ?b = "storedBooking i (submittedBooking newDate st u r n)"
  have "bookings d' = bookings d @ [?b]" using d' by simp
  moreover have "status ?b = pendiente"
    by (simp add: status_storedBooking submittedBooking_def)
  moreover have "booking_services d' = booking_services d
              @ map (\<lambda>serviceId. \<lparr>booking_id = id_Booking ?b, service_id = serviceId,
                                  quantity = 1\<rparr>) (selectedServices st)"
    using d' by (simp add: serviceRecords_def)
  ultimately show ?thesis by (intro exI [of _ ?b]) simp
qed

theorem handleSubmit_success_rows_witness:
  "\<exists>booking.
     bookings (snd (handleSubmit isoDate store_ok draft_ok db_empty)) = bookings db_empty @ [booking]
   \<and> status booking = pendiente
   \<and> booking_services (snd (handleSubmit isoDate store_ok draft_ok db_empty))
        = booking_services db_empty
          @ map (\<lambda>serviceId. \<lparr>booking_id = id_Booking booking, service_id = serviceId,
                              quantity = 1\<rparr>) (selectedServices draft_ok)
   \<and> length (bookings (snd (handleSubmit isoDate store_ok draft_ok db_empty)))
        = length (bookings db_empty) + 1
   \<and> length (booking_services (snd (handleSubmit isoDate store_ok draft_ok db_empty)))
        = length (booking_services db_empty) + length (selectedServices draft_ok)"
proof -
  have run: "handleSubmit isoDate store_ok draft_ok db_empty
     = (fst (handleSubmit isoDate store_ok draft_ok db_empty),
        snd (handleSubmit isoDate store_ok draft_ok db_empty))"
    by simp
  have ok: "toast_success msg_created \<in> set (fst (handleSubmit isoDate store_ok draft_ok db_empty))"
    by (simp add: handleSubmit_draft_ok)
  from handleSubmit_success_rows [OF run ok] show ?thesis .
qed

section \<open>C7: failures of the two inserts\<close>

text \<open>
  C7: for a draft that passes validation and the date check, (1) if the insert into
  \<open>bookings\<close> is refused, \<open>handleSubmit\<close> sends nothing else, shows one error and
  leaves the tables as they are; (2) if that insert succeeds, services are selected and
  the insert into \<open>booking_services\<close> is refused, \<open>handleSubmit\<close> shows one error and
  stops: the new booking stays in \<open>bookings\<close>, \<open>booking_services\<close> is as before, and
  no request that would undo the booking is sent.
\<close>

theorem handleSubmit_failure_semantics:
  assumes u: "user st = Some u" and r: "room st = Some r"
    and n: "guests (formData st) = Num n" "1 \<le> n"
    and ne: "checkIn (formData st) \<noteq> []" "checkOut (formData st) \<noteq> []"
    and order: "\<not> js_le (getTime (newDate (checkOut (formData st))))
                          (getTime (newDate (checkIn (formData st))))"
  shows "(bookings_insert sb d (submittedBooking newDate st u r n) = Inl e \<longrightarrow>
            handleSubmit newDate sb st d =
              ([insert_bookings (submittedBooking newDate st u r n),
                toast_error (catch_message e)], d))
       \<and> (bookings_insert sb d (submittedBooking newDate st u r n) = Inr i
          \<and> selectedServices st \<noteq> []
          \<and> booking_services_insert sb
               (d\<lparr>bookings := bookings d @ [storedBooking i (submittedBooking newDate st u r n)]\<rparr>)
               (serviceRecords (storedBooking i (submittedBooking newDate st u r n))
                  (selectedServices st)) = Some e' \<longrightarrow>
            handleSubmit newDate sb st d =
              ([insert_bookings (submittedBooking newDate st u r n),
                insert_booking_services
                  (serviceRecords (storedBooking i (submittedBooking newDate st u r n))
                     (selectedServices st)),
                toast_error (catch_message e')],
               d\<lparr>bookings := bookings d @ [storedBooking i (submittedBooking newDate st u r n)]\<rparr>)
          \<and> bookings (snd (handleSubmit newDate sb st d))
              = bookings d @ [storedBooking i (submittedBooking newDate st u r n)]
          \<and> booking_services (snd (handleSubmit newDate sb st d)) = booking_services d)"
proof -
  note acc = handleSubmit_accepted [OF u r n ne order, of sb d]
  have one: "bookings_insert sb d (submittedBooking newDate st u r n) = Inl e \<Longrightarrow>
            handleSubmit newDate sb st d =
              ([insert_bookings (submittedBooking newDate st u r n),
                toast_error (catch_message e)], d)"
    using acc by simp
  have two: "handleSubmit newDate sb st d =
              ([insert_bookings (submittedBooking newDate st u r n),
                insert_booking_services
                  (serviceRecords (storedBooking i (submittedBooking newDate st u r n))
                     (selectedServices st)),
                toast_error (catch_message e')],
               d\<lparr>bookings := bookings d @ [storedBooking i (submittedBooking newDate st u r n)]\<rparr>)"
    if "bookings_insert sb d (submittedBooking newDate st u r n) = Inr i"
      and "selectedServices st \<noteq> []"
      and "booking_services_insert sb
               (d\<lparr>bookings := bookings d @ [storedBooking i (submittedBooking newDate st u r n)]\<rparr>)
               (serviceRecords (storedBooking i (submittedBooking newDate st u r n))
                  (selectedServices st)) = Some e'"
    using acc that by (simp add: Let_def)
  show ?thesis
  proof (intro conjI impI)
    assume "bookings_insert sb d (submittedBooking newDate st u r n) = Inl e"
    then show "handleSubmit newDate sb st d =
              ([insert_bookings (submittedBooking newDate st u r n),
                toast_error (catch_message e)], d)"
      by (rule one)
  next
    assume a: "bookings_insert sb d (submittedBooking newDate st u r n) = Inr i
          \<and> selectedServices st \<noteq> []
          \<and> booking_services_insert sb
               (d\<lparr>bookings := bookings d @ [storedBooking i (submittedBooking newDate st u r n)]\<rparr>)
               (serviceRecords (storedBooking i (submittedBooking newDate st u r n))
                  (selectedServices st)) = Some e'"
    then show "handleSubmit newDate sb st d =
              ([insert_bookings (submittedBooking newDate st u r n),
                insert_booking_services
                  (serviceRecords (storedBooking i (submittedBooking newDate st u r n))
                     (selectedServices st)),
                toast_error (catch_message e')],
               d\<lparr>bookings := bookings d @ [storedBooking i (submittedBooking newDate st u r n)]\<rparr>)"
      using two by blast
    from a show "bookings (snd (handleSubmit newDate sb st d))
              = bookings d @ [storedBooking i (submittedBooking newDate st u r n)]"
      using two by simp
    from a show "booking_services (snd (handleSubmit newDate sb st d)) = booking_services d"
      using two by simp
  qed
qed

theorem handleSubmit_failure_semantics_witness:
  "handleSubmit isoDate store_no_booking draft_ok db_empty =
     ([insert_bookings (submittedBooking isoDate draft_ok ''u1'' room100 2),
       toast_error ''new row violates row-level security policy''], db_empty)
   \<and> handleSubmit isoDate store_no_services draft_ok db_empty =
     ([insert_bookings (submittedBooking isoDate draft_ok ''u1'' room100 2),
       insert_booking_services [\<lparr>booking_id = ''b1'', service_id = ''s1'', quantity = 1\<rparr>],
       toast_error ''violates foreign key constraint''],
      \<lparr>additional_services = [],
       bookings = [storedBooking ''b1'' (submittedBooking isoDate draft_ok ''u1'' room100 2)],
       booking_services = []\<rparr>)"
proof -
  have sel: "selectedServices draft_ok = [''s1'']" by (simp add: draft_ok_def)
  note t1 = handleSubmit_failure_semantics [OF draft_ok_accepted,
      where sb = store_no_booking and d = db_empty
        and e = "\<lparr>message_Error = ''new row violates row-level security policy''\<rparr>"
        and i = "''b1''" and e' = "\<lparr>message_Error = ''violates foreign key constraint''\<rparr>"]
  note t2 = handleSubmit_failure_semantics [OF draft_ok_accepted,
      where sb = store_no_services and d = db_empty
        and e = "\<lparr>message_Error = ''new row violates row-level security policy''\<rparr>"
        and i = "''b1''" and e' = "\<lparr>message_Error = ''violates foreign key constraint''\<rparr>"]
  have a: "handleSubmit isoDate store_no_booking draft_ok db_empty =
     ([insert_bookings (submittedBooking isoDate draft_ok ''u1'' room100 2),
       toast_error ''new row violates row-level security policy''], db_empty)"
    using t1 by (simp add: store_no_booking_def store_ok_def catch_message_def)
  have b: "handleSubmit isoDate store_no_services draft_ok db_empty =
     ([insert_bookings (submittedBooking isoDate draft_ok ''u1'' room100 2),
       insert_booking_services [\<lparr>booking_id = ''b1'', service_id = ''s1'', quantity = 1\<rparr>],
       toast_error ''violates foreign key constraint''],
      \<lparr>additional_services = [],
       bookings = [storedBooking ''b1'' (submittedBooking isoDate draft_ok ''u1'' room100 2)],
       booking_services = []\<rparr>)"
    using t2 by (simp add: store_no_services_def store_ok_def catch_message_def sel
        serviceRecords_def id_storedBooking db_empty_def)
  from a b show ?thesis by simp
qed

section \<open>C9: selected identifiers that are not in the list of services\<close>

lemma addService_unknown:
  assumes "serviceId \<notin> id_Service ` set svcs"
  shows "addService svcs t serviceId = t"
proof -
  from assms have "find (\<lambda>s. id_Service s = serviceId) svcs = None"
    by (auto simp: find_None_iff)
  then show ?thesis by (simp add: addService_def)
qed

lemma foldl_addService_known:
  "foldl (addService svcs) t (filter (\<lambda>i. i \<in> id_Service ` set svcs) sel)
     = foldl (addService svcs) t sel"
  by (induction sel arbitrary: t) (simp_all add: addService_unknown)

lemma draft_stale_eq:
  "draft_stale = draft_ok\<lparr>services := [], selectedServices := [''s3'', ''s5'']\<rparr>"
  by (simp add: draft_stale_def fetchServices_def store_ok_def db_withdrawn_def
      spa150_def cena200_def)

lemma draft_stale_accepted:
  "user draft_stale = Some ''u1''" "room draft_stale = Some room100"
  "guests (formData draft_stale) = Num 2" "(1::real) \<le> 2"
  "checkIn (formData draft_stale) \<noteq> []" "checkOut (formData draft_stale) \<noteq> []"
  "\<not> js_le (getTime (isoDate (checkOut (formData draft_stale))))
            (getTime (isoDate (checkIn (formData draft_stale))))"
  by (simp_all add: draft_stale_eq draft_ok_def isoDate_jan1 isoDate_jan3)

lemma calculateTotal_draft_stale: "calculateTotal isoDate draft_stale = Num 200"
  by code_simp

lemma handleSubmit_draft_stale:
  "handleSubmit isoDate store_ok draft_stale db_withdrawn =
     ([insert_bookings (submittedBooking isoDate draft_stale ''u1'' room100 2),
       insert_booking_services
         [\<lparr>booking_id = ''b1'', service_id = ''s3'', quantity = 1\<rparr>,
          \<lparr>booking_id = ''b1'', service_id = ''s5'', quantity = 1\<rparr>],
       toast_success msg_created, navigate ''/payment/b1''],
      \<lparr>additional_services = [spa150, cena200],
       bookings = [storedBooking ''b1'' (submittedBooking isoDate draft_stale ''u1'' room100 2)],
       booking_services =
         [\<lparr>booking_id = ''b1'', service_id = ''s3'', quantity = 1\<rparr>,
          \<lparr>booking_id = ''b1'', service_id = ''s5'', quantity = 1\<rparr>]\<rparr>)"
proof -
  have sel: "selectedServices draft_stale = [''s3'', ''s5'']" by (simp add: draft_stale_eq)
  show ?thesis
    by (simp add: handleSubmit_accepted [OF draft_stale_accepted] store_ok_def db_withdrawn_def
        Let_def sel serviceRecords_def id_storedBooking)
qed

text \<open>
  C9: an identifier that no service of the list has adds nothing to the total, so the
  total is that of the selection restricted to listed identifiers; a successful
  submission stores that total and still links every selected identifier, listed or
  not, with quantity 1. For the sample draft whose two selected services have been
  withdrawn, the stored total is 200 while the linked services cost 350.
\<close>

theorem unlisted_service_linked_not_priced:
  "(serviceId \<notin> id_Service ` set svcs \<longrightarrow> addService svcs t serviceId = t)
   \<and> calculateTotal newDate
        (st\<lparr>selectedServices :=
              filter (\<lambda>i. i \<in> id_Service ` set (services st)) (selectedServices st)\<rparr>)
       = calculateTotal newDate st
   \<and> (handleSubmit newDate sb st d = (evs, d') \<and> toast_success m \<in> set evs \<longrightarrow>
        (\<exists>booking\<in>set (bookings d').
            total_amount booking = calculateTotal newDate st
          \<and> (\<forall>i\<in>set (selectedServices st).
                \<lparr>booking_id = id_Booking booking, service_id = i, quantity = 1\<rparr>
                  \<in> set (booking_services d'))))
   \<and> toast_success msg_created \<in> set (fst (handleSubmit isoDate store_ok draft_stale db_withdrawn))
   \<and> map total_amount (bookings (snd (handleSubmit isoDate store_ok draft_stale db_withdrawn)))
       = [Num 200]
   \<and> map id_Booking (bookings (snd (handleSubmit isoDate store_ok draft_stale db_withdrawn)))
       = [''b1'']
   \<and> linkedPrices (snd (handleSubmit isoDate store_ok draft_stale db_withdrawn)) ''b1'' = 350"
proof -
  have a: "serviceId \<notin> id_Service ` set svcs \<longrightarrow> addService svcs t serviceId = t"
    by (simp add: addService_unknown)
  have b: "calculateTotal newDate
        (st\<lparr>selectedServices :=
              filter (\<lambda>i. i \<in> id_Service ` set (services st)) (selectedServices st)\<rparr>)
       = calculateTotal newDate st"
    by (simp add: calculateTotal_def foldl_addService_known split: option.split)
  have c: "\<exists>booking\<in>set (bookings d').
            total_amount booking = calculateTotal newDate st
          \<and> (\<forall>i\<in>set (selectedServices st).
                \<lparr>booking_id = id_Booking booking, service_id = i, quantity = 1\<rparr>
                  \<in> set (booking_services d'))"
    if run: "handleSubmit newDate sb st d = (evs, d')" and ok: "toast_success m \<in> set evs"
  proof -
    from success_shape [OF run ok] obtain u r n i where
      d': "d' = d\<lparr>bookings := bookings d @ [storedBooking i (submittedBooking newDate st u r n)],
                   booking_services := booking_services d
                      @ serviceRecords (storedBooking i (submittedBooking newDate st u r n))
                          (selectedServices st)\<rparr>"
      by blast
    let ?b = "storedBooking i (submittedBooking newDate st u r n)"
    have "?b \<in> set (bookings d')" using d' by simp
    moreover have "total_amount ?b = calculateTotal newDate st"
      by (simp add: total_storedBooking submittedBooking_def)
    moreover have "\<forall>i\<in>set (selectedServices st).
                \<lparr>booking_id = id_Booking ?b, service_id = i, quantity = 1\<rparr>
                  \<in> set (booking_services d')"
      using d' by (simp add: serviceRecords_def image_iff)
    ultimately show ?thesis by blast
  qed
  have e: "toast_success msg_created
            \<in> set (fst (handleSubmit isoDate store_ok draft_stale db_withdrawn))"
    by (simp add: handleSubmit_draft_stale)
  have f: "map total_amount (bookings (snd (handleSubmit isoDate store_ok draft_stale db_withdrawn)))
       = [Num 200]"
    by (simp add: handleSubmit_draft_stale total_storedBooking submittedBooking_def
        calculateTotal_draft_stale)
  have g: "map id_Booking (bookings (snd (handleSubmit isoDate store_ok draft_stale db_withdrawn)))
       = [''b1'']"
    by (simp add: handleSubmit_draft_stale id_storedBooking)
  have h: "linkedPrices (snd (handleSubmit isoDate store_ok draft_stale db_withdrawn)) ''b1'' = 350"
    by (simp add: handleSubmit_draft_stale linkedPrices_def priceOf_def spa150_def cena200_def)
  from a b c e f g h show ?thesis by blast
qed

theorem unlisted_service_linked_not_priced_witness:
  "addService [] (Num 200) ''s3'' = Num 200
   \<and> (\<exists>booking\<in>set (bookings (snd (handleSubmit isoDate store_ok draft_stale db_withdrawn))).
         total_amount booking = Num 200
       \<and> (\<forall>i\<in>set [''s3'', ''s5''].
             \<lparr>booking_id = id_Booking booking, service_id = i, quantity = 1\<rparr>
               \<in> set (booking_services (snd (handleSubmit isoDate store_ok draft_stale db_withdrawn)))))"
proof -
  have run: "handleSubmit isoDate store_ok draft_stale db_withdrawn
     = (fst (handleSubmit isoDate store_ok draft_stale db_withdrawn),
        snd (handleSubmit isoDate store_ok draft_stale db_withdrawn))"
    by simp
  have ok: "toast_success msg_created
            \<in> set (fst (handleSubmit isoDate store_ok draft_stale db_withdrawn))"
    by (simp add: handleSubmit_draft_stale)
  have un: "''s3'' \<notin> id_Service ` set []" by simp
  have sel: "selectedServices draft_stale = [''s3'', ''s5'']" by (simp add: draft_stale_eq)
  note t = unlisted_service_linked_not_priced [where serviceId = "''s3''" and svcs = "[]"
      and t = "Num 200" and newDate = isoDate and st = draft_stale and sb = store_ok
      and d = db_withdrawn and m = msg_created
      and evs = "fst (handleSubmit isoDate store_ok draft_stale db_withdrawn)"
      and d' = "snd (handleSubmit isoDate store_ok draft_stale db_withdrawn)"]
  from t un have "addService [] (Num 200) ''s3'' = Num 200" by blast
  moreover from t run ok have "\<exists>booking\<in>set (bookings (snd (handleSubmit isoDate store_ok draft_stale db_withdrawn))).
         total_amount booking = calculateTotal isoDate draft_stale
       \<and> (\<forall>i\<in>set (selectedServices draft_stale).
             \<lparr>booking_id = id_Booking booking, service_id = i, quantity = 1\<rparr>
               \<in> set (booking_services (snd (handleSubmit isoDate store_ok draft_stale db_withdrawn))))"
    by blast
  ultimately show ?thesis by (simp only: calculateTotal_draft_stale sel)
qed

section \<open>C10: toggling services\<close>







end
